theory Spec2Isabelle
  imports Complex_Main "HOL-Library.Sublist" "HOL-Library.Multiset"
begin

section \<open>Python values shared by the modules\<close>

text \<open>
  The repository is Python on asyncio. Its functions are embedded as HOL functions of an
  explicit environment (the record \<open>world\<close> below: what the remote services, the
  external tools and the operating system answer) and of an explicit state (the files of
  the staging area and the log of network calls and sleeps). A Python \<open>float\<close> is
  modelled by the real number it stands for, a Python \<open>int\<close> by \<open>int\<close> (or
  \<open>nat\<close> for sizes and counts), a \<open>str\<close> by \<open>string\<close>. The product and
  the sum of the encoder quality of \<open>compress_image\<close> are rounded to a double as
  Python rounds them (\<open>float_mul\<close> and \<open>float_add\<close> below); the quality range of
  pngquant is computed on the exact values.
\<close>

type_synonym path = string

text \<open>The exceptions the code catches, by the classes it tells apart.\<close>

datatype exn =
    TimeoutException            \<comment> \<open>httpx.TimeoutException\<close>
  | RequestError string         \<comment> \<open>httpx.RequestError\<close>
  | TimeoutExpired              \<comment> \<open>subprocess.TimeoutExpired\<close>
  | ValueError string
  | FileNotFoundError path
  | KeyError string
  | OtherException string

text \<open>\<open>int(x)\<close> on a float truncates towards zero.\<close>

definition py_int :: "real \<Rightarrow> int" where
  "py_int x = (if 0 \<le> x then \<lfloor>x\<rfloor> else \<lceil>x\<rceil>)"

subsection \<open>Float arithmetic\<close>

text \<open>
  A Python \<open>float\<close> is an IEEE 754 binary64 number, and \<open>*\<close> and \<open>+\<close> on floats
  give the exact result rounded to the nearest double, a tie going to the double whose
  last bit is even. \<open>round_half_even\<close> rounds a real to the nearest integer in that way.
\<close>

definition round_half_even :: "real \<Rightarrow> int" where
  "round_half_even x =
     (let n = \<lfloor>x\<rfloor>
      in if x - of_int n < 1 / 2 then n
         else if 1 / 2 < x - of_int n then n + 1
         else if even n then n else n + 1)"

text \<open>
  The binary exponent of a double: the e from -1022 to 1023 with \<open>2^e \<le> |x| < 2^(e+1)\<close>,
  and -1022 for the numbers below \<open>2^-1022\<close> (the subnormal range). It is searched
  upwards from -1022.
\<close>

fun exponent_from :: "nat \<Rightarrow> int \<Rightarrow> real \<Rightarrow> int" where
  "exponent_from 0 e x = e"
| "exponent_from (Suc fuel) e x =
     (if x < 2 powi (e + 1) then e else exponent_from fuel (e + 1) x)"

definition float_exponent :: "real \<Rightarrow> int" where
  "float_exponent x = exponent_from 2045 (- 1022) \<bar>x\<bar>"

text \<open>
  The doubles of exponent e are the multiples of \<open>2^(e-52)\<close>: a real is rounded to the
  nearest of them. Overflow to infinity (from \<open>2^1024\<close> on) is not modelled; the values
  rounded here lie between 0 and 100.
\<close>

definition float_round :: "real \<Rightarrow> real" where
  "float_round x =
     (let ulp = 2 powi (float_exponent x - 52)
      in of_int (round_half_even (x / ulp)) * ulp)"

definition float_mul :: "real \<Rightarrow> real \<Rightarrow> real" where
  "float_mul x y = float_round (x * y)"

definition float_add :: "real \<Rightarrow> real \<Rightarrow> real" where
  "float_add x y = float_round (x + y)"

subsection \<open>Strings and paths\<close>

definition upper_char :: "char \<Rightarrow> char" where
  "upper_char c =
     (case map_of (zip ''abcdefghijklmnopqrstuvwxyz'' ''ABCDEFGHIJKLMNOPQRSTUVWXYZ'') c of
        Some d \<Rightarrow> d | None \<Rightarrow> c)"

definition lower_char :: "char \<Rightarrow> char" where
  "lower_char c =
     (case map_of (zip ''ABCDEFGHIJKLMNOPQRSTUVWXYZ'' ''abcdefghijklmnopqrstuvwxyz'') c of
        Some d \<Rightarrow> d | None \<Rightarrow> c)"

definition upper :: "string \<Rightarrow> string" where
  "upper s = map upper_char s"

definition lower :: "string \<Rightarrow> string" where
  "lower s = map lower_char s"

text \<open>
  \<open>str.strip()\<close>: the characters Python counts as whitespace, among the code points a
  \<open>char\<close> can hold: tab to carriage return, the four separators 28 to 31, the space,
  and NEL and the no-break space.
\<close>

definition is_space :: "char \<Rightarrow> bool" where
  "is_space c = ((of_char c :: nat) \<in> set [9, 10, 11, 12, 13, 28, 29, 30, 31, 32, 133, 160])"

definition strip :: "string \<Rightarrow> string" where
  "strip s = rev (dropWhile is_space (rev (dropWhile is_space s)))"

text \<open>\<open>os.path.basename\<close>: what follows the last slash.\<close>

definition basename :: "path \<Rightarrow> string" where
  "basename p = rev (takeWhile (\<lambda>c. c \<noteq> CHR ''/'') (rev p))"

text \<open>
  \<open>Path.suffix\<close>: the last dot of the final component and what follows it, when the
  dot is neither the first nor the last character of the component; empty otherwise.
\<close>

definition path_suffix :: "path \<Rightarrow> string" where
  "path_suffix p =
     (let name = basename p;
          ext = rev (takeWhile (\<lambda>c. c \<noteq> CHR ''.'') (rev name))
      in if CHR ''.'' \<in> set name \<and> ext \<noteq> [] \<and> length ext + 1 < length name
         then CHR ''.'' # ext else [])"

text \<open>\<open>Path / name\<close> for a relative name.\<close>

definition path_join :: "path \<Rightarrow> string \<Rightarrow> path" where
  "path_join dir name = dir @ ''/'' @ name"

subsection \<open>Files\<close>

text \<open>
  The files of the file system with their sizes in bytes, in directory order. Writing a
  file that exists replaces its content in place.
\<close>

type_synonym files = "(path \<times> nat) list"

definition stat_size :: "files \<Rightarrow> path \<Rightarrow> nat option" where
  "stat_size fs p = map_of fs p"

fun write_file :: "path \<Rightarrow> nat \<Rightarrow> files \<Rightarrow> files" where
  "write_file p n [] = [(p, n)]"
| "write_file p n ((q, m) # fs) = (if q = p then (p, n) # fs else (q, m) # write_file p n fs)"

section \<open>image_compression.py\<close>

text \<open>What Pillow reports of an opened image: \<open>img.format\<close> (may be None) and \<open>img.mode\<close>.\<close>

record pil_image =
  img_format :: "string option"
  img_mode :: string

text \<open>The arguments of one \<open>img.save(image_path, ...)\<close> call, with the mode of the image saved.\<close>

record save_args =
  save_format :: "string option"
  save_quality :: "int option"
  save_optimize :: bool
  save_mode :: string

text \<open>
  One run of the pngquant process: \<open>subprocess.run\<close> raises (TimeoutExpired after 30
  seconds, or another exception), or the process exits with a return code and a stderr
  text; after return code 0 the file has the given size.
\<close>

datatype proc_outcome =
    ProcRaised exn
  | ProcExit int string nat

record compress_env =
  pil_available :: bool
  pngquant_path :: "string option"
  run_pngquant :: "path \<Rightarrow> int \<Rightarrow> int \<Rightarrow> proc_outcome"
  image_open :: "path \<Rightarrow> exn + pil_image"
  pil_save :: "path \<Rightarrow> save_args \<Rightarrow> exn + nat"

datatype compress_error =
    PillowMissing
  | CompressImageFailed exn
  | PngquantNotFound
  | PngquantAlreadyGood int int
  | PngquantFailed "string + int"
  | PngquantTimeout
  | PngquantError exn

record compress_ok =
  original_size :: nat
  compressed_size :: nat
  compression_ratio :: real
  size_reduction :: int
  compression_method :: string
  quality_range :: "(int \<times> int) option"

type_synonym compress_result = "compress_error + compress_ok"

definition ratio_percent :: "nat \<Rightarrow> nat \<Rightarrow> real" where
  "ratio_percent original compressed =
     (if original > 0 then (real original - real compressed) / real original * 100 else 0)"

definition compress_report :: "nat \<Rightarrow> nat \<Rightarrow> string \<Rightarrow> (int \<times> int) option \<Rightarrow> compress_ok" where
  "compress_report original compressed method qrange =
     \<lparr>original_size = original, compressed_size = compressed,
      compression_ratio = ratio_percent original compressed,
      size_reduction = int original - int compressed,
      compression_method = method, quality_range = qrange\<rparr>"

text \<open>Lines 66 to 75 of \<open>compress_png_with_pngquant\<close>: the quality range handed to pngquant.\<close>

definition pngquant_range :: "real \<Rightarrow> int \<times> int" where
  "pngquant_range quality =
     (let min_quality = py_int (5 + quality * 80);
          max_quality = py_int (20 + quality * 75);
          min_quality = max 5 (min 85 min_quality);
          max_quality = max 20 (min 95 max_quality);
          max_quality = (if max_quality \<le> min_quality then min_quality + 10 else max_quality)
      in (min_quality, max_quality))"

definition compress_png_with_pngquant ::
  "compress_env \<Rightarrow> path \<Rightarrow> real \<Rightarrow> files \<Rightarrow> compress_result \<times> files" where
  "compress_png_with_pngquant env image_path quality fs =
     (case pngquant_path env of
        None \<Rightarrow> (Inl PngquantNotFound, fs)
      | Some tool \<Rightarrow>
          (if tool = [] then (Inl PngquantNotFound, fs)
           else case stat_size fs image_path of
             None \<Rightarrow> (Inl (PngquantError (FileNotFoundError image_path)), fs)
           | Some original \<Rightarrow>
               (case pngquant_range quality of (min_quality, max_quality) \<Rightarrow>
                  (case run_pngquant env image_path min_quality max_quality of
                     ProcRaised e \<Rightarrow>
                       (if e = TimeoutExpired then Inl PngquantTimeout else Inl (PngquantError e), fs)
                   | ProcExit returncode stderr new_size \<Rightarrow>
                       (if returncode = 0 then
                          (Inr (compress_report original new_size ''pngquant''
                                  (Some (min_quality, max_quality))),
                           write_file image_path new_size fs)
                        else if returncode = 99 then
                          (Inl (PngquantAlreadyGood min_quality max_quality), fs)
                        else
                          (Inl (PngquantFailed
                                  (if stderr \<noteq> [] then Inl (strip stderr) else Inr returncode)),
                           fs))))))"

text \<open>
  \<open>int(1 + quality * 99)\<close> clamped into 1..100: the expression of both the JPEG and the
  WEBP branch of \<open>compress_image\<close>. The product is a float product and the sum a float
  sum (99 and 1 are converted to floats exactly), each rounded to a double.
\<close>

definition pil_quality :: "real \<Rightarrow> int" where
  "pil_quality quality = max 1 (min 100 (py_int (float_add 1 (float_mul quality 99))))"

text \<open>
  Lines 187 to 212: \<open>img.format or file_format\<close>, and from it the one \<open>save\<close> call
  made on the path of the input (the JPEG branch converts an image that is not RGB first).
\<close>

definition effective_format :: "pil_image \<Rightarrow> string \<Rightarrow> string" where
  "effective_format img file_format =
     (case img_format img of
        None \<Rightarrow> file_format
      | Some f \<Rightarrow> (if f = [] then file_format else f))"

definition pillow_save_args :: "pil_image \<Rightarrow> string \<Rightarrow> real \<Rightarrow> bool \<Rightarrow> save_args" where
  "pillow_save_args img file_format quality optimize =
     (let fmt = effective_format img file_format
      in if upper fmt \<in> set [''JPEG'', ''JPG''] then
           \<lparr>save_format = Some ''JPEG'', save_quality = Some (pil_quality quality),
            save_optimize = optimize,
            save_mode = (if img_mode img \<noteq> ''RGB'' then ''RGB'' else img_mode img)\<rparr>
         else if upper fmt = ''WEBP'' then
           \<lparr>save_format = Some ''WEBP'', save_quality = Some (pil_quality quality),
            save_optimize = optimize, save_mode = img_mode img\<rparr>
         else
           \<lparr>save_format = None, save_quality = None,
            save_optimize = optimize, save_mode = img_mode img\<rparr>)"

definition compress_image ::
  "compress_env \<Rightarrow> path \<Rightarrow> real \<Rightarrow> bool \<Rightarrow> files \<Rightarrow> compress_result \<times> files" where
  "compress_image env image_path quality optimize fs =
     (case stat_size fs image_path of
        None \<Rightarrow> (Inl (CompressImageFailed (FileNotFoundError image_path)), fs)
      | Some original \<Rightarrow>
          (if \<not> pil_available env then (Inl PillowMissing, fs)
           else
             let quality = max 0 (min 1 quality);
                 file_format = dropWhile (\<lambda>c. c = CHR ''.'') (upper (path_suffix image_path))
             in if file_format = ''PNG'' then
                  compress_png_with_pngquant env image_path quality fs
                else
                  (case image_open env image_path of
                     Inl e \<Rightarrow> (Inl (CompressImageFailed e), fs)
                   | Inr img \<Rightarrow>
                       (case pil_save env image_path
                               (pillow_save_args img file_format quality optimize) of
                          Inl e \<Rightarrow> (Inl (CompressImageFailed e), fs)
                        | Inr new_size \<Rightarrow>
                            (Inr (compress_report original new_size ''pillow'' None),
                             write_file image_path new_size fs)))))"

definition is_compression_supported :: "path \<Rightarrow> bool" where
  "is_compression_supported image_path =
     (lower (path_suffix image_path) \<in> set [''.jpg'', ''.jpeg'', ''.png'', ''.webp''])"

section \<open>The state of a run\<close>

text \<open>
  What a run leaves behind: the network calls and sleeps in the order they were made, and
  the files and directories of the file system. The staging folder, when it exists, is a
  directory the process may delete and write into.
\<close>

datatype event =
    NodesQuery string string                  \<comment> \<open>GET files/{key}/nodes: file key, ids (depth 1)\<close>
  | ImagesQuery string string string real     \<comment> \<open>GET images/{key}: file key, ids, format, scale\<close>
  | DownloadGet string                        \<comment> \<open>GET of an image URL\<close>
  | Sleep nat                                 \<comment> \<open>asyncio.sleep, in seconds\<close>
  | UploadPost path                           \<comment> \<open>multipart POST of a file\<close>

record state =
  files :: files
  dirs :: "path list"
  trace :: "event list"

text \<open>
  \<open>asyncio.gather\<close>: the tasks of a batch finish in some order (here by the finishing
  time of each position, a parameter), each acting on the state when it finishes, and
  the results come back in the order of the tasks, whatever order they finished in.
\<close>

fun run_in_order ::
  "('a \<Rightarrow> 's \<Rightarrow> 'b \<times> 's) \<Rightarrow> 'a list \<Rightarrow> nat list \<Rightarrow> 's \<Rightarrow> (nat \<times> 'b) list \<times> 's" where
  "run_in_order task xs [] s = ([], s)"
| "run_in_order task xs (i # order) s =
     (case task (xs ! i) s of (r, s') \<Rightarrow>
        (case run_in_order task xs order s' of (finished, s'') \<Rightarrow> ((i, r) # finished, s'')))"

definition gather ::
  "(nat \<Rightarrow> nat) \<Rightarrow> ('a \<Rightarrow> 's \<Rightarrow> 'b \<times> 's) \<Rightarrow> 'a list \<Rightarrow> 's \<Rightarrow> 'b list \<times> 's" where
  "gather finish task xs s =
     (case run_in_order task xs (sort_key finish [0..<length xs]) s of
        (finished, s') \<Rightarrow> (map snd (sort_key fst finished), s'))"

section \<open>file_upload.py\<close>

text \<open>
  A parsed JSON value as Python holds it; JSON null is None. A float stands for its real
  value.
\<close>

datatype json =
    JNull
  | JBool bool
  | JInt int
  | JFloat real
  | JStr string
  | JArr "json list"
  | JObj "(string \<times> json) list"

text \<open>Python truth of a value, and \<open>value == 0\<close>.\<close>

fun truthy :: "json \<Rightarrow> bool" where
  "truthy JNull = False"
| "truthy (JBool b) = b"
| "truthy (JInt i) = (i \<noteq> 0)"
| "truthy (JFloat x) = (x \<noteq> 0)"
| "truthy (JStr s) = (s \<noteq> [])"
| "truthy (JArr xs) = (xs \<noteq> [])"
| "truthy (JObj kvs) = (kvs \<noteq> [])"

fun equals_zero :: "json \<Rightarrow> bool" where
  "equals_zero (JInt i) = (i = 0)"
| "equals_zero (JFloat x) = (x = 0)"
| "equals_zero (JBool b) = (\<not> b)"
| "equals_zero JNull = False"
| "equals_zero (JStr s) = False"
| "equals_zero (JArr xs) = False"
| "equals_zero (JObj kvs) = False"

text \<open>\<open>d.get(k)\<close>: None when the key is missing.\<close>

definition dict_get :: "(string \<times> json) list \<Rightarrow> string \<Rightarrow> json" where
  "dict_get d k = (case map_of d k of None \<Rightarrow> JNull | Some v \<Rightarrow> v)"

text \<open>\<open>CustomUploader._parse_response\<close>: the pair (url, error message).\<close>

definition parse_response :: "(string \<times> json) list \<Rightarrow> json \<times> json" where
  "parse_response response_data =
     (if equals_zero (dict_get response_data ''code'') \<or> truthy (dict_get response_data ''success'')
      then (case dict_get response_data ''data'' of
              JStr data_field \<Rightarrow> (JStr data_field, JNull)
            | JObj data_field \<Rightarrow> (dict_get data_field ''url'', JNull)
            | _ \<Rightarrow> (dict_get response_data ''url'', JNull))
      else (JNull,
            case map_of response_data ''message'' of
              None \<Rightarrow> JStr ''Unknown server error''
            | Some m \<Rightarrow> m))"

record provider =
  secret_key :: string
  base_url :: string

text \<open>
  The upload server: for a provider and a file, the POST raises, or answers with a status
  code, the text of the body and the body parsed as JSON (None when it is not JSON, where
  \<open>response.json()\<close> raises). The timestamp and the signature are part of the request
  and not modelled.
\<close>

record upload_env =
  upload_api :: "provider \<Rightarrow> path \<Rightarrow> exn + (int \<times> string \<times> json option)"
  upload_finish :: "nat \<Rightarrow> nat"

datatype upload_error =
    FileMissing path              \<comment> \<open>File does not exist\<close>
  | HttpError int string          \<comment> \<open>HTTP error: status, with the body as details\<close>
  | NonJsonResponse json          \<comment> \<open>Server returned non-JSON response\<close>
  | ServerError json              \<comment> \<open>Server error: message\<close>
  | UploadException exn           \<comment> \<open>str(e) of a caught exception\<close>

text \<open>
  The result dictionary of one upload: success with file_name, file_size, url and
  file_path, or failure with error and file_path.
\<close>

datatype upload_result =
    Uploaded string nat json path
  | UploadFailed upload_error path

fun upload_succeeded :: "upload_result \<Rightarrow> bool" where
  "upload_succeeded (Uploaded name n url p) = True"
| "upload_succeeded (UploadFailed e p) = False"

fun upload_path :: "upload_result \<Rightarrow> path" where
  "upload_path (Uploaded name n url p) = p"
| "upload_path (UploadFailed e p) = p"

fun upload_size :: "upload_result \<Rightarrow> nat" where
  "upload_size (Uploaded name n url p) = n"
| "upload_size (UploadFailed e p) = 0"

definition upload :: "upload_env \<Rightarrow> provider \<Rightarrow> files \<Rightarrow> path \<Rightarrow> upload_result \<times> event list" where
  "upload env prov fs file_path =
     (case stat_size fs file_path of
        None \<Rightarrow> (UploadFailed (FileMissing file_path) file_path, [])
      | Some file_size \<Rightarrow>
          (case upload_api env prov file_path of
             Inl e \<Rightarrow> (UploadFailed (UploadException e) file_path, [UploadPost file_path])
           | Inr (status, text, body) \<Rightarrow>
               (if status \<noteq> 200 then UploadFailed (HttpError status text) file_path
                else case body of
                  None \<Rightarrow> UploadFailed (UploadException (ValueError ''JSONDecodeError'')) file_path
                | Some (JObj result_data) \<Rightarrow>
                    (case parse_response result_data of (file_url, error_msg) \<Rightarrow>
                       if truthy error_msg then UploadFailed (ServerError error_msg) file_path
                       else Uploaded (basename file_path) file_size file_url file_path)
                | Some result_data \<Rightarrow> UploadFailed (NonJsonResponse result_data) file_path,
                [UploadPost file_path])))"

text \<open>
  \<open>get_storage_provider\<close>: the provider is built from the environment variables on the
  first call and kept; with one environment every call gives the same provider or the
  same ValueError.
\<close>

definition getenv :: "(string \<times> string) list \<Rightarrow> string \<Rightarrow> string option" where
  "getenv env name = map_of env name"

definition provider_config :: "(string \<times> string) list \<Rightarrow> string \<Rightarrow> (string \<rightharpoonup> string)" where
  "provider_config env config_prefix =
     fold (\<lambda>(key, v) cfg.
             if take (length config_prefix) key = config_prefix
             then cfg(lower (drop (length config_prefix) key) \<mapsto> v) else cfg)
          env Map.empty"

definition custom_uploader :: "(string \<rightharpoonup> string) \<Rightarrow> exn + provider" where
  "custom_uploader config =
     (case config ''secret_key'' of
        None \<Rightarrow> Inl (ValueError ''Provider config must include secret_key'')
      | Some sk \<Rightarrow>
          (if sk = [] then Inl (ValueError ''Provider config must include secret_key'')
           else case config ''upload_url'' of
             None \<Rightarrow> Inl (ValueError ''Provider config must include upload_url'')
           | Some u \<Rightarrow>
               (if u = [] then Inl (ValueError ''Provider config must include upload_url'')
                else Inr \<lparr>secret_key = sk, base_url = u\<rparr>)))"

definition get_storage_provider :: "(string \<times> string) list \<Rightarrow> exn + provider" where
  "get_storage_provider env =
     (let provider_name =
            lower (case getenv env ''STORAGE_PROVIDER'' of None \<Rightarrow> ''custom'' | Some v \<Rightarrow> v)
      in if provider_name = ''custom''
         then custom_uploader (provider_config env (upper provider_name @ ''_''))
         else Inl (ValueError (''Unsupported storage provider: '' @ provider_name)))"

definition upload_file ::
  "(string \<times> string) list \<Rightarrow> upload_env \<Rightarrow> files \<Rightarrow> path \<Rightarrow> upload_result \<times> event list" where
  "upload_file env uenv fs file_path =
     (case get_storage_provider env of
        Inl e \<Rightarrow> (UploadFailed (UploadException e) file_path, [])
      | Inr prov \<Rightarrow> upload uenv prov fs file_path)"

record batch_report =
  batch_success :: bool
  total_files :: nat
  successful_count :: nat
  failed_count :: nat
  successful_uploads :: "upload_result list"
  failed_uploads :: "upload_result list"
  total_size :: nat

definition upload_multiple_files ::
  "(string \<times> string) list \<Rightarrow> upload_env \<Rightarrow> files \<Rightarrow> path list \<Rightarrow> event list
     \<Rightarrow> batch_report \<times> event list" where
  "upload_multiple_files env uenv fs file_paths tr =
     (case gather (upload_finish uenv)
             (\<lambda>file_path t. case upload_file env uenv fs file_path of (r, ev) \<Rightarrow> (r, t @ ev))
             file_paths tr of
        (results, tr') \<Rightarrow>
          (let successful = filter upload_succeeded results;
               failed = filter (\<lambda>r. \<not> upload_succeeded r) results
           in (\<lparr>batch_success = (failed = []),
                total_files = length file_paths,
                successful_count = length successful,
                failed_count = length failed,
                successful_uploads = successful,
                failed_uploads = failed,
                total_size = sum_list (map upload_size successful)\<rparr>, tr')))"

datatype folder_result =
    FolderNotFound path
  | NoImageFiles path
  | FolderUploaded batch_report

definition default_extensions :: "string list" where
  "default_extensions = [''.png'', ''.jpg'', ''.jpeg'', ''.gif'', ''.svg'', ''.webp'']"

text \<open>\<open>p.rglob("*" + ext)\<close> kept to files: the files below the folder whose name ends with ext.\<close>

definition rglob :: "files \<Rightarrow> path \<Rightarrow> string \<Rightarrow> path list" where
  "rglob fs folder ext =
     filter (\<lambda>f. prefix (folder @ ''/'') f \<and> suffix ext (basename f)) (map fst fs)"

definition upload_folder_images ::
  "(string \<times> string) list \<Rightarrow> upload_env \<Rightarrow> path \<Rightarrow> string list \<Rightarrow> state
     \<Rightarrow> folder_result \<times> state" where
  "upload_folder_images env uenv folder_path file_extensions st =
     (if folder_path \<notin> set (dirs st) then (FolderNotFound folder_path, st)
      else
        let image_files = concat (map (rglob (files st) folder_path) file_extensions)
        in if image_files = [] then (NoImageFiles folder_path, st)
           else case upload_multiple_files env uenv (files st) image_files (trace st) of
                  (report, tr) \<Rightarrow> (FolderUploaded report, st\<lparr>trace := tr\<rparr>))"

section \<open>exceptions.py\<close>

text \<open>
  The error dictionaries the functions return: the message (one constructor for each
  message of the source, with the values it formats into the text) and the status code
  when the dictionary has one.
\<close>

datatype api_msg =
    AccessDenied          \<comment> \<open>the fixed message of 403\<close>
  | FileNotFound          \<comment> \<open>the fixed message of 404\<close>
  | RateLimited           \<comment> \<open>the fixed message of 429\<close>
  | RequestFailed int     \<comment> \<open>any other status code\<close>

datatype err_msg =
    InvalidFormat string
  | InvalidScale real
  | ApiError api_msg "string option"   \<comment> \<open>with the err or message field of the body\<close>
  | RequestTimeout
  | NetworkError exn
  | UnknownError string exn            \<comment> \<open>operation name and exception\<close>
  | NoChildrenToExport
  | NoImageUrls

record failure =
  error :: err_msg
  status_code :: "int option"

text \<open>
  An answer of the design service: the request raises, or there is a status code, the
  payload the caller reads from the body when the status is 200, and the \<open>err\<close> and
  \<open>message\<close> fields of the body when it has them. A body is taken with the types the
  service documents; where reading a body of another type would raise inside the
  \<open>try\<close>, the answer is \<open>Raised\<close>.
\<close>

datatype 'a http =
    Raised exn
  | Response int 'a "string option" "string option"

definition handle_api_error :: "int \<Rightarrow> string option \<Rightarrow> string option \<Rightarrow> failure" where
  "handle_api_error status err message =
     \<lparr>error = ApiError
                (if status = 403 then AccessDenied
                 else if status = 404 then FileNotFound
                 else if status = 429 then RateLimited
                 else RequestFailed status)
                (case err of Some e \<Rightarrow> Some e | None \<Rightarrow> message),
      status_code = Some status\<rparr>"

fun handle_exception :: "exn \<Rightarrow> string \<Rightarrow> failure" where
  "handle_exception TimeoutException operation_name =
     \<lparr>error = RequestTimeout, status_code = Some 408\<rparr>"
| "handle_exception (RequestError m) operation_name =
     \<lparr>error = NetworkError (RequestError m), status_code = Some 0\<rparr>"
| "handle_exception e operation_name =
     \<lparr>error = UnknownError operation_name e, status_code = Some 500\<rparr>"

section \<open>image_export.py\<close>

text \<open>
  The \<open>document\<close> of a node: its name, when it has one, and the \<open>id\<close> of each of its
  children (None for a child with no id). A node maps to None when its entry is null or
  has no document.
\<close>

record document =
  doc_name :: "string option"
  doc_children :: "string option list"

type_synonym nodes = "(string \<times> document option) list"

text \<open>The \<open>images\<close> of the body: node id to URL, None for a null URL, in the order of the body.\<close>

type_synonym images = "(string \<times> string option) list"

datatype download_reply =
    DownloadRaised exn
  | DownloadResponse int nat     \<comment> \<open>status code and length of the content\<close>

record datetime =
  year :: nat
  month :: nat
  day :: nat
  hour :: nat
  minute :: nat
  second :: nat

text \<open>
  The design service and the operating system, as the export sees them: the two queries
  (by file key, token and ids), the answer to the n-th GET of an image URL, whether
  creating a directory fails, the clock at the n-th node of the export loop, and the
  finishing times of the download tasks.
\<close>

record figma_env =
  nodes_api :: "string \<Rightarrow> string \<Rightarrow> string \<Rightarrow> nodes http"
  images_api :: "string \<Rightarrow> string \<Rightarrow> string \<Rightarrow> string \<Rightarrow> real \<Rightarrow> images http"
  download_api :: "string \<Rightarrow> nat \<Rightarrow> download_reply"
  mkdir_error :: "path \<Rightarrow> exn option"
  now :: "nat \<Rightarrow> datetime"
  download_finish :: "nat \<Rightarrow> nat"

record world =
  environ :: "(string \<times> string) list"
  figma :: figma_env
  compressor :: compress_env
  uploader :: upload_env

subsection \<open>get_child_node_ids\<close>

record child_nodes =
  child_node_ids :: "string list"
  parent_nodes :: "string list"
  total_children :: nat

definition collect_child_ids :: "nodes \<Rightarrow> string list" where
  "collect_child_ids ns =
     concat (map (\<lambda>(node_id, node_info).
                    case node_info of
                      None \<Rightarrow> []
                    | Some doc \<Rightarrow>
                        concat (map (\<lambda>child. case child of
                                       None \<Rightarrow> []
                                     | Some child_id \<Rightarrow> (if child_id \<noteq> [] then [child_id] else []))
                                (doc_children doc)))
                 ns)"

definition get_child_node_ids ::
  "figma_env \<Rightarrow> string \<Rightarrow> string \<Rightarrow> string \<Rightarrow> event list \<Rightarrow> (failure + child_nodes) \<times> event list" where
  "get_child_node_ids env file_key access_token node_ids tr =
     (case nodes_api env file_key access_token node_ids of
        Raised e \<Rightarrow>
          (Inl (handle_exception e ''get child nodes''), tr @ [NodesQuery file_key node_ids])
      | Response status ns err message \<Rightarrow>
          (if status = 200 then
             Inr \<lparr>child_node_ids = collect_child_ids ns,
                  parent_nodes = map fst ns,
                  total_children = length (collect_child_ids ns)\<rparr>
           else Inl (handle_api_error status err message),
           tr @ [NodesQuery file_key node_ids]))"

subsection \<open>get_figma_images_data\<close>

record images_data =
  data_file_key :: string
  data_images :: images
  data_format :: string
  data_scale :: real
  data_err :: "string option"
  failed_nodes :: "string list"

definition valid_formats :: "string list" where
  "valid_formats = [''jpg'', ''png'', ''svg'', ''pdf'']"

text \<open>\<open>not url\<close>: the URL is None or empty.\<close>

definition no_url :: "string option \<Rightarrow> bool" where
  "no_url u = (case u of None \<Rightarrow> True | Some s \<Rightarrow> s = [])"

definition get_figma_images_data ::
  "figma_env \<Rightarrow> string \<Rightarrow> string \<Rightarrow> string \<Rightarrow> string \<Rightarrow> real \<Rightarrow> event list
     \<Rightarrow> (failure + images_data) \<times> event list" where
  "get_figma_images_data env file_key access_token node_ids format scale tr =
     (if format \<notin> set valid_formats then
        (Inl \<lparr>error = InvalidFormat format, status_code = None\<rparr>, tr)
      else if \<not> (1 / 100 \<le> scale \<and> scale \<le> 4) then
        (Inl \<lparr>error = InvalidScale scale, status_code = None\<rparr>, tr)
      else
        (case images_api env file_key access_token node_ids format scale of
           Raised e \<Rightarrow> Inl (handle_exception e ''get figma images'')
         | Response status imgs err message \<Rightarrow>
             (if status = 200 then
                Inr \<lparr>data_file_key = file_key, data_images = imgs, data_format = format,
                     data_scale = scale, data_err = err,
                     failed_nodes = map fst (filter (\<lambda>(node_id, url). no_url url) imgs)\<rparr>
              else Inl (handle_api_error status err message)),
         tr @ [ImagesQuery file_key node_ids format scale]))"

subsection \<open>download_image_from_url\<close>

datatype download_error =
    EmptyUrl                   \<comment> \<open>the image URL is empty\<close>
  | BadStatus int              \<comment> \<open>download failed, status code\<close>
  | DownloadException exn      \<comment> \<open>error while downloading the image\<close>
  | AllAttemptsFailed          \<comment> \<open>all download attempts failed\<close>
  | TaskRaised exn             \<comment> \<open>str(result) of a task that raised\<close>

text \<open>
  A successful download: the path, the name, the size reported (the compressed size when
  compression succeeded) and what the compressor answered (None when the extension is
  not one it supports).
\<close>

record downloaded =
  dl_file_path :: path
  dl_filename :: string
  dl_file_size :: nat
  dl_compression :: "compress_result option"

type_synonym download_result = "download_error + downloaded"

text \<open>
  The loop \<open>for attempt in range(max_retries + 1)\<close>, as a recursion over the attempts
  left. It gives the result, the events of this download and the files. Writing the
  downloaded bytes into the staging folder does not fail; an exception of the request is
  the reply \<open>DownloadRaised\<close>.
\<close>

fun download_attempts ::
  "figma_env \<Rightarrow> compress_env \<Rightarrow> string \<Rightarrow> path \<Rightarrow> string \<Rightarrow> real \<Rightarrow> int \<Rightarrow> nat list \<Rightarrow> files
     \<Rightarrow> download_result \<times> event list \<times> files" where
  "download_attempts env cenv image_url full_path filename quality max_retries [] fs =
     (Inl AllAttemptsFailed, [], fs)"
| "download_attempts env cenv image_url full_path filename quality max_retries (attempt # rest) fs =
     (case download_api env image_url attempt of
        DownloadResponse status n \<Rightarrow>
          (if status = 200 then
             (let fs1 = write_file full_path n fs
              in if is_compression_supported full_path then
                   (case compress_image cenv full_path quality True fs1 of
                      (Inr c, fs2) \<Rightarrow>
                        (Inr \<lparr>dl_file_path = full_path, dl_filename = filename,
                              dl_file_size = compressed_size c, dl_compression = Some (Inr c)\<rparr>,
                         [DownloadGet image_url], fs2)
                    | (Inl e, fs2) \<Rightarrow>
                        (Inr \<lparr>dl_file_path = full_path, dl_filename = filename,
                              dl_file_size = n, dl_compression = Some (Inl e)\<rparr>,
                         [DownloadGet image_url], fs2))
                 else
                   (Inr \<lparr>dl_file_path = full_path, dl_filename = filename,
                         dl_file_size = n, dl_compression = None\<rparr>,
                    [DownloadGet image_url], fs1))
           else if int attempt < max_retries then
             (case download_attempts env cenv image_url full_path filename quality max_retries rest fs of
                (r, ev, fs') \<Rightarrow> (r, DownloadGet image_url # Sleep (2 ^ attempt) # ev, fs'))
           else (Inl (BadStatus status), [DownloadGet image_url], fs))
      | DownloadRaised e \<Rightarrow>
          (if int attempt < max_retries then
             (case download_attempts env cenv image_url full_path filename quality max_retries rest fs of
                (r, ev, fs') \<Rightarrow> (r, DownloadGet image_url # Sleep (2 ^ attempt) # ev, fs'))
           else (Inl (DownloadException e), [DownloadGet image_url], fs)))"

text \<open>
  \<open>save_path.mkdir\<close> stands before the \<open>try\<close>: when it raises, the call raises
  (\<open>Inl\<close>); otherwise the call returns a result dictionary.
\<close>

definition download_image_from_url ::
  "figma_env \<Rightarrow> compress_env \<Rightarrow> string \<Rightarrow> path \<Rightarrow> string \<Rightarrow> real \<Rightarrow> int \<Rightarrow> state
     \<Rightarrow> (exn + download_result) \<times> state" where
  "download_image_from_url env cenv image_url save_path filename compression_quality max_retries st =
     (case mkdir_error env save_path of
        Some e \<Rightarrow> (Inl e, st)
      | None \<Rightarrow>
          (case download_attempts env cenv image_url (path_join save_path filename) filename
                  compression_quality max_retries [0..<nat (max_retries + 1)] (files st) of
             (r, ev, fs') \<Rightarrow>
               (Inr r, st\<lparr>files := fs', dirs := List.insert save_path (dirs st),
                          trace := trace st @ ev\<rparr>)))"

subsection \<open>export_figma_images_to_folder\<close>

text \<open>The characters \<open>re.sub\<close> replaces by an underscore in a node name.\<close>

definition illegal_chars :: "char list" where
  "illegal_chars =
     [CHR ''<'', CHR ''>'', CHR '':'', CHR 0x22, CHR ''/'', CHR 0x5C, CHR ''|'', CHR ''?'', CHR ''*'']"

definition sanitize :: "string \<Rightarrow> string" where
  "sanitize node_name = map (\<lambda>c. if c \<in> set illegal_chars then CHR ''_'' else c) node_name"

text \<open>Lines 320 to 331: the dictionary \<open>node_names\<close> built from the nodes of the answer.\<close>

definition node_display_names :: "nodes \<Rightarrow> (string \<rightharpoonup> string)" where
  "node_display_names ns =
     fold (\<lambda>(node_id, node_info) names.
             case node_info of
               None \<Rightarrow> names
             | Some doc \<Rightarrow>
                 (let node_name = strip (case doc_name doc of None \<Rightarrow> [] | Some n \<Rightarrow> n)
                  in if node_name \<noteq> [] then
                       (let safe_name = strip (sanitize node_name)
                        in if safe_name \<noteq> [] then names(node_id \<mapsto> safe_name) else names)
                     else names))
          ns Map.empty"

text \<open>Decimal digits of a number, and \<open>strftime("%Y%m%d_%H%M%S")\<close>.\<close>

definition digit_char :: "nat \<Rightarrow> char" where
  "digit_char d = ''0123456789'' ! d"

fun str_nat :: "nat \<Rightarrow> string" where
  "str_nat n = (if n < 10 then [digit_char n] else str_nat (n div 10) @ [digit_char (n mod 10)])"

definition zero_pad :: "nat \<Rightarrow> nat \<Rightarrow> string" where
  "zero_pad width n = replicate (width - length (str_nat n)) CHR ''0'' @ str_nat n"

definition strftime_stamp :: "datetime \<Rightarrow> string" where
  "strftime_stamp t =
     zero_pad 4 (year t) @ zero_pad 2 (month t) @ zero_pad 2 (day t) @ ''_'' @
     zero_pad 2 (hour t) @ zero_pad 2 (minute t) @ zero_pad 2 (second t)"

definition fallback_filename :: "string \<Rightarrow> string \<Rightarrow> nat \<Rightarrow> string \<Rightarrow> string" where
  "fallback_filename node_id timestamp i format =
     ''figma_export_'' @ node_id @ ''_'' @ timestamp @ ''_'' @ str_nat (i + 1) @ ''.'' @ format"

text \<open>
  Lines 371 to 376: the name of the file of the node at position i, the node's resolved
  name when it has one and the generated name otherwise, with the clock read at that
  node.
\<close>

definition choose_filename ::
  "figma_env \<Rightarrow> (string \<rightharpoonup> string) \<Rightarrow> string \<Rightarrow> nat \<Rightarrow> string \<Rightarrow> string" where
  "choose_filename env node_names format i node_id =
     (case node_names node_id of
        Some name \<Rightarrow> name @ ''.'' @ format
      | None \<Rightarrow> fallback_filename node_id (strftime_stamp (now env i)) i format)"

record download_task =
  task_node_id :: string
  task_url :: string
  task_filename :: string

text \<open>
  Lines 366 to 385: the loop over \<open>enumerate(images.items())\<close>. A node with no URL goes
  to \<open>failed_downloads\<close> and gets no task; any other node gets a task under the name
  chosen for it.
\<close>

fun plan_downloads ::
  "figma_env \<Rightarrow> (string \<rightharpoonup> string) \<Rightarrow> string \<Rightarrow> (nat \<times> string \<times> string option) list
     \<Rightarrow> (string \<times> download_error) list \<times> download_task list" where
  "plan_downloads env node_names format [] = ([], [])"
| "plan_downloads env node_names format ((i, node_id, image_url) # rest) =
     (case plan_downloads env node_names format rest of (failed_downloads, download_tasks) \<Rightarrow>
        (case image_url of
           None \<Rightarrow> ((node_id, EmptyUrl) # failed_downloads, download_tasks)
         | Some u \<Rightarrow>
             (if u = [] then ((node_id, EmptyUrl) # failed_downloads, download_tasks)
              else
                (failed_downloads,
                 \<lparr>task_node_id = node_id, task_url = u,
                  task_filename = choose_filename env node_names format i node_id\<rparr>
                 # download_tasks))))"

record downloaded_file =
  df_node_id :: string
  df_file_path :: path
  df_filename :: string
  df_file_size :: nat
  uses_original_name :: bool

text \<open>Lines 394 to 413: the loop over \<open>zip(download_tasks, download_results)\<close>.\<close>

fun collect_results ::
  "(string \<rightharpoonup> string) \<Rightarrow> (download_task \<times> (exn + download_result)) list
     \<Rightarrow> downloaded_file list \<Rightarrow> (string \<times> download_error) list
     \<Rightarrow> downloaded_file list \<times> (string \<times> download_error) list" where
  "collect_results node_names [] downloaded_files failed_downloads =
     (downloaded_files, failed_downloads)"
| "collect_results node_names ((task, result) # rest) downloaded_files failed_downloads =
     (case result of
        Inl e \<Rightarrow>
          collect_results node_names rest downloaded_files
            (failed_downloads @ [(task_node_id task, TaskRaised e)])
      | Inr (Inr d) \<Rightarrow>
          collect_results node_names rest
            (downloaded_files @
               [\<lparr>df_node_id = task_node_id task, df_file_path = dl_file_path d,
                 df_filename = dl_filename d, df_file_size = dl_file_size d,
                 uses_original_name = (task_node_id task \<in> dom node_names)\<rparr>])
            failed_downloads
      | Inr (Inl err) \<Rightarrow>
          collect_results node_names rest downloaded_files
            (failed_downloads @ [(task_node_id task, err)]))"

text \<open>
  Lines 388 to 413: the tasks are gathered (each with the default of three retries) and
  their results sorted into the two lists. Gathering no task changes nothing, as the
  guard \<open>if download_tasks\<close> has it.
\<close>

definition run_downloads ::
  "world \<Rightarrow> (string \<rightharpoonup> string) \<Rightarrow> real \<Rightarrow> download_task list \<Rightarrow> (string \<times> download_error) list
     \<Rightarrow> state \<Rightarrow> (downloaded_file list \<times> (string \<times> download_error) list) \<times> state" where
  "run_downloads w node_names compression_quality download_tasks failed_downloads st =
     (case gather (download_finish (figma w))
             (\<lambda>task. download_image_from_url (figma w) (compressor w) (task_url task)
                        ''temp-images'' (task_filename task) compression_quality 3)
             download_tasks st of
        (download_results, st') \<Rightarrow>
          (collect_results node_names (zip download_tasks download_results) [] failed_downloads,
           st'))"

record export_ok =
  export_file_key :: string
  export_format :: string
  export_scale :: real
  downloaded_files :: "downloaded_file list"
  failed_downloads :: "(string \<times> download_error) list"

text \<open>
  Lines 296 to 334: the query for the names of the nodes. Any failure of it leaves
  \<open>node_names\<close> empty and the export goes on.
\<close>

definition fetch_node_names ::
  "figma_env \<Rightarrow> string \<Rightarrow> string \<Rightarrow> string \<Rightarrow> (string \<rightharpoonup> string)" where
  "fetch_node_names env file_key access_token node_ids =
     (case nodes_api env file_key access_token node_ids of
        Raised e \<Rightarrow> Map.empty
      | Response status ns err message \<Rightarrow>
          (if status = 200 then node_display_names ns else Map.empty))"

definition export_figma_images_to_folder ::
  "world \<Rightarrow> string \<Rightarrow> string \<Rightarrow> string \<Rightarrow> string \<Rightarrow> real \<Rightarrow> real \<Rightarrow> state
     \<Rightarrow> (failure + export_ok) \<times> state" where
  "export_figma_images_to_folder w file_key access_token node_ids format scale compression_quality st =
     (let node_names = fetch_node_names (figma w) file_key access_token node_ids
      in case get_figma_images_data (figma w) file_key access_token node_ids format scale
                (trace st @ [NodesQuery file_key node_ids]) of
           (Inl f, tr) \<Rightarrow> (Inl f, st\<lparr>trace := tr\<rparr>)
         | (Inr images_data, tr) \<Rightarrow>
             (if data_images images_data = [] then
                (Inl \<lparr>error = NoImageUrls, status_code = None\<rparr>, st\<lparr>trace := tr\<rparr>)
              else case mkdir_error (figma w) ''temp-images'' of
                Some e \<Rightarrow>
                  (Inl (handle_exception e ''export figma images to folder''), st\<lparr>trace := tr\<rparr>)
              | None \<Rightarrow>
                  (case plan_downloads (figma w) node_names format
                          (enumerate 0 (data_images images_data)) of
                     (failed0, download_tasks) \<Rightarrow>
                       (case run_downloads w node_names compression_quality download_tasks failed0
                               (st\<lparr>dirs := List.insert ''temp-images'' (dirs st), trace := tr\<rparr>) of
                          ((downloaded, failed), st') \<Rightarrow>
                            (Inr \<lparr>export_file_key = file_key, export_format = format,
                                  export_scale = scale, downloaded_files = downloaded,
                                  failed_downloads = failed\<rparr>, st')))))"

section \<open>server.py\<close>

text \<open>
  What the tool gives its caller: it raises, it returns an error dictionary, or it
  returns the report of \<open>successful_uploads\<close> (name, url) and \<open>failed_uploads\<close>
  (name, error).
\<close>

datatype tool_result =
    ToolRaised exn
  | ToolFailed failure
  | ToolReport "(string \<times> json) list" "(string \<times> upload_error) list"

text \<open>\<open>shutil.rmtree\<close> of a folder: its files and directories are gone.\<close>

definition rmtree :: "path \<Rightarrow> state \<Rightarrow> state" where
  "rmtree folder st =
     st\<lparr>files := filter (\<lambda>(p, n). \<not> prefix (folder @ ''/'') p) (files st),
        dirs := filter (\<lambda>d. d \<noteq> folder \<and> \<not> prefix (folder @ ''/'') d) (dirs st)\<rparr>"

fun join_comma :: "string list \<Rightarrow> string" where
  "join_comma [] = []"
| "join_comma [x] = x"
| "join_comma (x # y # rest) = x @ '','' @ join_comma (y # rest)"

text \<open>
  Lines 135 to 146: the two comprehensions. \<open>upload["file_name"]\<close> and
  \<open>upload["error"]\<close> raise KeyError on a dictionary without the key.
\<close>

fun success_entries :: "upload_result list \<Rightarrow> exn + (string \<times> json) list" where
  "success_entries [] = Inr []"
| "success_entries (Uploaded name n url p # rest) =
     (case success_entries rest of Inl e \<Rightarrow> Inl e | Inr es \<Rightarrow> Inr ((name, url) # es))"
| "success_entries (UploadFailed e p # rest) = Inl (KeyError ''file_name'')"

fun failure_entries :: "upload_result list \<Rightarrow> exn + (string \<times> upload_error) list" where
  "failure_entries [] = Inr []"
| "failure_entries (UploadFailed e p # rest) =
     (case failure_entries rest of Inl x \<Rightarrow> Inl x | Inr es \<Rightarrow> Inr ((basename p, e) # es))"
| "failure_entries (Uploaded name n url p # rest) = Inl (KeyError ''error'')"

definition upload_report :: "folder_result \<Rightarrow> tool_result" where
  "upload_report upload_result =
     (case upload_result of
        FolderUploaded b \<Rightarrow>
          (case success_entries (successful_uploads b) of
             Inl e \<Rightarrow> ToolFailed (handle_exception e ''get figma images'')
           | Inr successful \<Rightarrow>
               (case failure_entries (failed_uploads b) of
                  Inl e \<Rightarrow> ToolFailed (handle_exception e ''get figma images'')
                | Inr failed \<Rightarrow> ToolReport successful failed))
      | NoImageFiles p \<Rightarrow> ToolReport [] []
      | FolderNotFound p \<Rightarrow> ToolReport [] [])"

definition get_figma_images ::
  "world \<Rightarrow> string \<Rightarrow> string \<Rightarrow> string \<Rightarrow> real \<Rightarrow> real \<Rightarrow> bool \<Rightarrow> state \<Rightarrow> tool_result \<times> state" where
  "get_figma_images w file_key node_ids format scale compression_quality export_children st =
     (case getenv (environ w) ''FIGMA_ACCESS_TOKEN'' of
        None \<Rightarrow> (ToolRaised (ValueError ''FIGMA_ACCESS_TOKEN environment variable not set.''), st)
      | Some access_token \<Rightarrow>
          (if access_token = [] then
             (ToolRaised (ValueError ''FIGMA_ACCESS_TOKEN environment variable not set.''), st)
           else
             let st1 = rmtree ''temp-images'' st
             in case (if export_children then
                        (case get_child_node_ids (figma w) file_key access_token node_ids (trace st1) of
                           (Inl f, tr) \<Rightarrow> (Inl f, tr)
                         | (Inr child_nodes_result, tr) \<Rightarrow>
                             (if child_node_ids child_nodes_result = [] then
                                (Inl \<lparr>error = NoChildrenToExport, status_code = None\<rparr>, tr)
                              else (Inr (join_comma (child_node_ids child_nodes_result)), tr)))
                      else (Inr node_ids, trace st1)) of
                  (Inl f, tr) \<Rightarrow> (ToolFailed f, st1\<lparr>trace := tr\<rparr>)
                | (Inr target_node_ids, tr) \<Rightarrow>
                    (case export_figma_images_to_folder w file_key access_token target_node_ids
                            format scale compression_quality (st1\<lparr>trace := tr\<rparr>) of
                       (Inl f, st2) \<Rightarrow> (ToolFailed f, st2)
                     | (Inr result, st2) \<Rightarrow>
                         (if downloaded_files result \<noteq> [] then
                            (case upload_folder_images (environ w) (uploader w) ''temp-images''
                                    default_extensions st2 of
                               (upload_result, st3) \<Rightarrow> (upload_report upload_result, st3))
                          else (ToolReport [] [], st2)))))"

section \<open>Observations on results and traces\<close>

text \<open>
  Definitions used to state the properties: when a reply to a download counts as a
  failure and which error the code reports for it, the events of a download whose
  attempts k to m all fail, the GETs and the sleeps of a trace, when a gathered download
  result is a success, and the value of a decimal digit.
\<close>

definition failed_reply :: "download_reply \<Rightarrow> bool" where
  "failed_reply r = (case r of DownloadRaised e \<Rightarrow> True | DownloadResponse status n \<Rightarrow> status \<noteq> 200)"

definition reply_error :: "download_reply \<Rightarrow> download_error" where
  "reply_error r = (case r of DownloadRaised e \<Rightarrow> DownloadException e | DownloadResponse status n \<Rightarrow> BadStatus status)"

definition retry_events :: "string \<Rightarrow> nat \<Rightarrow> nat \<Rightarrow> event list" where
  "retry_events url k m = concat (map (\<lambda>a. [DownloadGet url, Sleep (2 ^ a)]) [k..<m]) @ [DownloadGet url]"

fun is_get :: "event \<Rightarrow> bool" where
  "is_get (DownloadGet u) = True"
| "is_get e = False"

fun sleeps :: "event list \<Rightarrow> nat list" where
  "sleeps [] = []"
| "sleeps (Sleep n # es) = n # sleeps es"
| "sleeps (e # es) = sleeps es"

fun download_succeeded :: "exn + download_result \<Rightarrow> bool" where
  "download_succeeded (Inr (Inr d)) = True"
| "download_succeeded r = False"

definition download_entry :: "(string \<rightharpoonup> string) \<Rightarrow> download_task \<Rightarrow> downloaded \<Rightarrow> downloaded_file" where
  "download_entry node_names task d =
     \<lparr>df_node_id = task_node_id task, df_file_path = dl_file_path d,
      df_filename = dl_filename d, df_file_size = dl_file_size d,
      uses_original_name = (task_node_id task \<in> dom node_names)\<rparr>"


section \<open>Concrete environments\<close>

text \<open>Environments and states on which the theorems below are instantiated.\<close>

definition demo_compressor :: compress_env where
  "demo_compressor =
     \<lparr>pil_available = True,
      pngquant_path = Some ''/venv/bin/pngquant'',
      run_pngquant = (\<lambda>p lo hi. ProcExit 0 [] 700),
      image_open = (\<lambda>p. Inr \<lparr>img_format = Some ''JPEG'', img_mode = ''RGBA''\<rparr>),
      pil_save = (\<lambda>p a. Inr 400)\<rparr>"

definition demo_figma :: figma_env where
  "demo_figma =
     \<lparr>nodes_api = (\<lambda>file_key token ids.
         if ids = ''0:1'' then
           Response 200 [(''0:1'', Some \<lparr>doc_name = Some ''Empty frame'', doc_children = []\<rparr>)] None None
         else if ids = ''1:2,1:3'' then
           Response 200 [(''1:2'', Some \<lparr>doc_name = Some ''logo'', doc_children = []\<rparr>),
                         (''1:3'', Some \<lparr>doc_name = Some '' icon/small '', doc_children = []\<rparr>)] None None
         else
           Response 200 [(''2:1'', Some \<lparr>doc_name = Some ''icon'', doc_children = []\<rparr>),
                         (''2:2'', Some \<lparr>doc_name = Some ''icon'', doc_children = []\<rparr>)] None None),
      images_api = (\<lambda>file_key token ids format scale.
         if ids = ''1:2,1:3'' then
           Response 200 [(''1:2'', None), (''1:3'', Some ''https://img.example.com/icon'')] None None
         else
           Response 200 [(''2:1'', Some ''https://img.example.com/a''),
                         (''2:2'', Some ''https://img.example.com/b'')] None None),
      download_api = (\<lambda>url attempt.
         if url = ''https://img.example.com/down'' then DownloadResponse 503 0
         else DownloadResponse 200 1000),
      mkdir_error = (\<lambda>p. None),
      now = (\<lambda>i. \<lparr>year = 2024, month = 1, day = 2, hour = 3, minute = 4, second = 5\<rparr>),
      download_finish = (\<lambda>i. 10 - i)\<rparr>"

definition demo_uploader :: upload_env where
  "demo_uploader =
     \<lparr>upload_api = (\<lambda>prov p.
         if p = ''temp-images/bare.png'' then
           Inr (200, [], Some (JObj [(''url'', JStr ''https://cdn.example.com/bare.png'')]))
         else if p = ''temp-images/odd.png'' then
           Inr (200, [], Some (JObj [(''code'', JInt 0), (''data'', JInt 5)]))
         else if p = ''temp-images/bad.png'' then
           Inr (500, ''Internal Server Error'', None)
         else
           Inr (200, [], Some (JObj [(''code'', JInt 0),
                                     (''data'', JObj [(''url'', JStr (''https://cdn.example.com/'' @ basename p))])]))),
      upload_finish = (\<lambda>i. 10 - i)\<rparr>"

text \<open>
  An upload server that refuses every file with a failure code and an empty message, and
  one that refuses with a status in the body and a null message.
\<close>

definition refusing_uploader :: upload_env where
  "refusing_uploader =
     \<lparr>upload_api = (\<lambda>prov p.
         if p = ''temp-images/icon.png'' then
           Inr (200, [], Some (JObj [(''code'', JInt 500), (''message'', JNull)]))
         else
           Inr (200, [], Some (JObj [(''code'', JInt 1), (''message'', JStr [])]))),
      upload_finish = (\<lambda>i. i)\<rparr>"

definition demo_environ :: "(string \<times> string) list" where
  "demo_environ =
     [(''FIGMA_ACCESS_TOKEN'', ''figd_token''),
      (''CUSTOM_SECRET_KEY'', ''s3cret''),
      (''CUSTOM_UPLOAD_URL'', ''https://upload.example.com/api'')]"

definition demo_world :: world where
  "demo_world =
     \<lparr>environ = demo_environ, figma = demo_figma, compressor = demo_compressor,
      uploader = demo_uploader\<rparr>"

definition demo_state :: state where
  "demo_state = \<lparr>files = [(''temp-images/stale.png'', 5)], dirs = [''temp-images''], trace = []\<rparr>"

definition demo_provider :: provider where
  "demo_provider = \<lparr>secret_key = ''s3cret'', base_url = ''https://upload.example.com/api''\<rparr>"

definition demo_uploads :: files where
  "demo_uploads = [(''temp-images/logo.png'', 700), (''temp-images/bad.png'', 20), (''temp-images/icon.png'', 300)]"

definition demo_tasks :: "download_task list" where
  "demo_tasks =
     [\<lparr>task_node_id = ''3:1'', task_url = ''https://img.example.com/down'', task_filename = ''down.png''\<rparr>,
      \<lparr>task_node_id = ''3:2'', task_url = ''https://img.example.com/ok'', task_filename = ''ok.svg''\<rparr>]"



section \<open>Properties of the compression policy\<close>

lemma py_int_nonneg: "0 \<le> x \<Longrightarrow> py_int x = \<lfloor>x\<rfloor>"
  by (simp add: py_int_def)







subsection \<open>The float arithmetic of the encoder quality\<close>

lemma round_half_even_of_int: "round_half_even (of_int n) = n"
  by (simp add: round_half_even_def)

lemma round_half_even_range:
  "\<lfloor>x\<rfloor> \<le> round_half_even x" "round_half_even x \<le> \<lfloor>x\<rfloor> + 1"
  by (simp_all add: round_half_even_def Let_def)

lemma round_half_even_mono:
  assumes "x \<le> y"
  shows "round_half_even x \<le> round_half_even y"
proof (cases "\<lfloor>x\<rfloor> < \<lfloor>y\<rfloor>")
  case True
  then show ?thesis
    using round_half_even_range(2) [of x] round_half_even_range(1) [of y] by linarith
next
  case False
  then have e: "\<lfloor>x\<rfloor> = \<lfloor>y\<rfloor>" using floor_mono [OF assms] by simp
  have "x - of_int \<lfloor>y\<rfloor> \<le> y - of_int \<lfloor>y\<rfloor>" using assms by simp
  then show ?thesis by (auto simp add: round_half_even_def Let_def e)
qed

lemma exponent_from_spec:
  "e \<le> exponent_from k e x \<and> exponent_from k e x \<le> e + int k
   \<and> (exponent_from k e x = e \<or> 2 powi exponent_from k e x \<le> x)
   \<and> (exponent_from k e x = e + int k \<or> x < 2 powi (exponent_from k e x + 1))"
proof (induction k arbitrary: e)
  case 0
  show ?case by simp
next
  case (Suc k)
  show ?case
  proof (cases "x < 2 powi (e + 1)")
    case True
    then show ?thesis by simp
  next
    case False
    then have r: "exponent_from (Suc k) e x = exponent_from k (e + 1) x" by simp
    have le: "2 powi (e + 1) \<le> x" using False by simp
    show ?thesis unfolding r using Suc [of "e + 1"] le by auto
  qed
qed

lemma float_exponent_spec:
  "- 1022 \<le> float_exponent x" "float_exponent x \<le> 1023"
  "float_exponent x = - 1022 \<or> 2 powi float_exponent x \<le> \<bar>x\<bar>"
  "float_exponent x = 1023 \<or> \<bar>x\<bar> < 2 powi (float_exponent x + 1)"
  using exponent_from_spec [of "- 1022" 2045 "\<bar>x\<bar>"]
  by (simp_all add: float_exponent_def)

lemma float_exponent_eq:
  assumes "- 1022 \<le> e" "e \<le> 1023" "e = - 1022 \<or> 2 powi e \<le> \<bar>x\<bar>" "\<bar>x\<bar> < 2 powi (e + 1)"
  shows "float_exponent x = e"
proof (rule ccontr)
  assume ne: "float_exponent x \<noteq> e"
  show False
  proof (cases "float_exponent x < e")
    case True
    then have a: "\<bar>x\<bar> < 2 powi (float_exponent x + 1)"
      using float_exponent_spec(4) [of x] assms(2) by auto
    have "e \<noteq> - 1022" using True float_exponent_spec(1) [of x] by simp
    then have b: "2 powi e \<le> \<bar>x\<bar>" using assms(3) by simp
    have "(2::real) powi (float_exponent x + 1) \<le> 2 powi e"
      using True by (intro power_int_increasing) simp_all
    then show False using a b by simp
  next
    case False
    then have gt: "e < float_exponent x" using ne by simp
    then have "float_exponent x \<noteq> - 1022" using assms(1) by simp
    then have b: "2 powi float_exponent x \<le> \<bar>x\<bar>" using float_exponent_spec(3) [of x] by simp
    have "(2::real) powi (e + 1) \<le> 2 powi float_exponent x"
      using gt by (intro power_int_increasing) simp_all
    then show False using assms(4) b by simp
  qed
qed

lemma float_exponent_mono:
  assumes "\<bar>x\<bar> \<le> \<bar>y\<bar>"
  shows "float_exponent x \<le> float_exponent y"
proof (rule ccontr)
  assume "\<not> float_exponent x \<le> float_exponent y"
  then have gt: "float_exponent y < float_exponent x" by simp
  have "float_exponent x \<noteq> - 1022" using gt float_exponent_spec(1) [of y] by simp
  then have a: "2 powi float_exponent x \<le> \<bar>x\<bar>" using float_exponent_spec(3) [of x] by simp
  have "float_exponent y \<noteq> 1023" using gt float_exponent_spec(2) [of x] by simp
  then have b: "\<bar>y\<bar> < 2 powi (float_exponent y + 1)" using float_exponent_spec(4) [of y] by simp
  have "(2::real) powi (float_exponent y + 1) \<le> 2 powi float_exponent x"
    using gt by (intro power_int_increasing) simp_all
  then show False using a b assms by simp
qed


lemma float_round_nonneg:
  assumes "0 \<le> x"
  shows "0 \<le> float_round x"
proof -
  let ?u = "(2::real) powi (float_exponent x - 52)"
  have u: "0 < ?u" by simp
  have "0 \<le> x / ?u" using assms u by simp
  then have "round_half_even 0 \<le> round_half_even (x / ?u)" by (rule round_half_even_mono)
  then have "0 \<le> round_half_even (x / ?u)" using round_half_even_of_int [of 0] by simp
  then show ?thesis using u by (simp add: float_round_def Let_def)
qed

lemma float_round_upper:
  assumes "0 \<le> x" "x < 2 powi (float_exponent x + 1)"
  shows "float_round x \<le> 2 powi (float_exponent x + 1)"
proof -
  let ?e = "float_exponent x"
  let ?u = "(2::real) powi (?e - 52)"
  have u: "0 < ?u" by simp
  have p: "(2::real) powi (?e + 1) = 2 ^ 53 * ?u"
    using power_int_add [of "2::real" 53 "?e - 52"] by (simp add: add.commute)
  have "x / ?u \<le> 2 ^ 53" using assms(2) u unfolding p by (simp add: field_simps)
  then have "x / ?u \<le> of_int (2 ^ 53)" by simp
  then have "round_half_even (x / ?u) \<le> round_half_even (of_int (2 ^ 53))"
    by (rule round_half_even_mono)
  then have "round_half_even (x / ?u) \<le> 2 ^ 53" by (simp only: round_half_even_of_int)
  then have "real_of_int (round_half_even (x / ?u)) \<le> 2 ^ 53"
    by (metis of_int_le_iff of_int_numeral of_int_power)
  then have "real_of_int (round_half_even (x / ?u)) * ?u \<le> 2 ^ 53 * ?u"
    using u by (simp only: mult_le_cancel_right_pos)
  then show ?thesis unfolding p by (simp add: float_round_def Let_def)
qed

lemma float_round_lower:
  assumes "0 \<le> x" "2 powi float_exponent x \<le> x"
  shows "2 powi float_exponent x \<le> float_round x"
proof -
  let ?e = "float_exponent x"
  let ?u = "(2::real) powi (?e - 52)"
  have u: "0 < ?u" by simp
  have p: "(2::real) powi ?e = 2 ^ 52 * ?u"
    using power_int_add [of "2::real" 52 "?e - 52"] by simp
  have "2 ^ 52 \<le> x / ?u" using assms(2) u unfolding p by (simp add: field_simps)
  then have "of_int (2 ^ 52) \<le> x / ?u" by simp
  then have "round_half_even (of_int (2 ^ 52)) \<le> round_half_even (x / ?u)"
    by (rule round_half_even_mono)
  then have "2 ^ 52 \<le> round_half_even (x / ?u)" by (simp only: round_half_even_of_int)
  then have "2 ^ 52 \<le> real_of_int (round_half_even (x / ?u))"
    by (metis of_int_le_iff of_int_numeral of_int_power)
  then have "2 ^ 52 * ?u \<le> real_of_int (round_half_even (x / ?u)) * ?u"
    using u by (simp only: mult_le_cancel_right_pos)
  then show ?thesis unfolding p by (simp add: float_round_def Let_def)
qed

lemma float_round_mono:
  assumes "0 \<le> x" "x \<le> y"
  shows "float_round x \<le> float_round y"
proof -
  have y0: "0 \<le> y" using assms by simp
  have le: "float_exponent x \<le> float_exponent y"
    using assms by (intro float_exponent_mono) simp
  show ?thesis
  proof (cases "float_exponent x = float_exponent y")
    case True
    let ?u = "(2::real) powi (float_exponent y - 52)"
    have u: "0 < ?u" by simp
    have "x / ?u \<le> y / ?u" using assms(2) u by (simp add: divide_right_mono)
    then have "round_half_even (x / ?u) \<le> round_half_even (y / ?u)" by (rule round_half_even_mono)
    then have "real_of_int (round_half_even (x / ?u)) * ?u \<le> real_of_int (round_half_even (y / ?u)) * ?u"
      using u by (simp only: mult_le_cancel_right_pos of_int_le_iff)
    then show ?thesis by (simp add: float_round_def Let_def True)
  next
    case False
    then have lt: "float_exponent x < float_exponent y" using le by simp
    have "float_exponent x \<noteq> 1023" using lt float_exponent_spec(2) [of y] by simp
    then have "x < 2 powi (float_exponent x + 1)"
      using float_exponent_spec(4) [of x] assms(1) by simp
    then have a: "float_round x \<le> 2 powi (float_exponent x + 1)"
      using assms(1) by (intro float_round_upper)
    have "float_exponent y \<noteq> - 1022" using lt float_exponent_spec(1) [of x] by simp
    then have "2 powi float_exponent y \<le> y"
      using float_exponent_spec(3) [of y] y0 by simp
    then have b: "2 powi float_exponent y \<le> float_round y"
      using y0 by (intro float_round_lower)
    have "(2::real) powi (float_exponent x + 1) \<le> 2 powi float_exponent y"
      using lt by (intro power_int_increasing) simp_all
    then show ?thesis using a b by simp
  qed
qed

text \<open>A dyadic number with a numerator below 2^53 is a double.\<close>

lemma float_round_dyadic:
  assumes "0 \<le> n" "n < 2 ^ 53" "k \<le> 1074"
  shows "float_round (of_int n / 2 ^ k) = of_int n / 2 ^ k"
proof -
  let ?x = "real_of_int n / 2 ^ k"
  let ?e = "float_exponent ?x"
  let ?d = "52 - ?e - int k"
  have x0: "0 \<le> ?x" using assms(1) by simp
  have d0: "0 \<le> ?d"
  proof (cases "?e = - 1022")
    case True
    then show ?thesis using assms(3) by simp
  next
    case False
    then have a: "2 powi ?e \<le> ?x" using float_exponent_spec(3) [of ?x] x0 by simp
    have "real_of_int n < 2 ^ 53" using assms(2)
      by (metis of_int_less_iff of_int_numeral of_int_power)
    then have "?x < 2 ^ 53 / 2 ^ k" by (simp add: divide_strict_right_mono)
    also have "\<dots> = 2 powi (53 - int k)"
      using power_int_diff [of "2::real" 53 "int k"] by simp
    finally have lt: "(2::real) powi ?e < 2 powi (53 - int k)" using a by simp
    have "?e < 53 - int k"
    proof (rule ccontr)
      assume "\<not> ?e < 53 - int k"
      then have "(2::real) powi (53 - int k) \<le> 2 powi ?e"
        by (intro power_int_increasing) simp_all
      then show False using lt by simp
    qed
    then show ?thesis by simp
  qed
  have inv: "?x / 2 powi (?e - 52) = of_int (n * 2 ^ nat ?d)"
  proof -
    have "?x / 2 powi (?e - 52) = of_int n * (2 powi (- int k) * 2 powi (52 - ?e))"
      by (simp add: power_int_minus field_simps power_int_diff)
    also have "2 powi (- int k) * (2::real) powi (52 - ?e) = 2 powi ?d"
      using power_int_add [of "2::real" "- int k" "52 - ?e"] by (simp add: algebra_simps)
    also have "(2::real) powi ?d = 2 ^ nat ?d" using d0 by (simp add: power_int_nonneg_exp)
    finally show ?thesis by simp
  qed
  have restore: "real_of_int (n * 2 ^ nat ?d) * 2 powi (?e - 52) = ?x"
    using inv by (simp add: field_simps)
  show ?thesis
    unfolding float_round_def Let_def inv round_half_even_of_int using restore by simp
qed

lemma float_round_of_int:
  assumes "0 \<le> n" "n < 2 ^ 53"
  shows "float_round (of_int n) = of_int n"
  using float_round_dyadic [OF assms, of 0] by simp

lemma float_round_between:
  assumes "0 \<le> x" "x \<le> 100"
  shows "of_int \<lfloor>x\<rfloor> \<le> float_round x" "float_round x \<le> of_int \<lceil>x\<rceil>"
proof -
  have f0: "0 \<le> \<lfloor>x\<rfloor>" using assms(1) by simp
  have f1: "\<lfloor>x\<rfloor> < 2 ^ 53" using assms(2) by (simp add: floor_less_iff)
  have "float_round (of_int \<lfloor>x\<rfloor>) \<le> float_round x"
    using f0 by (intro float_round_mono) simp_all
  then show "of_int \<lfloor>x\<rfloor> \<le> float_round x" using float_round_of_int [OF f0 f1] by simp
  have c0: "0 \<le> \<lceil>x\<rceil>" using assms(1) by (simp add: le_ceiling_iff)
  have "\<lceil>x\<rceil> \<le> 100" using assms(2) by (simp add: ceiling_le_iff)
  then have c1: "\<lceil>x\<rceil> < 2 ^ 53" by simp
  have "float_round x \<le> float_round (of_int \<lceil>x\<rceil>)"
    using assms(1) by (intro float_round_mono) simp_all
  then show "float_round x \<le> of_int \<lceil>x\<rceil>" using float_round_of_int [OF c0 c1] by simp
qed

lemma pil_quality_float:
  assumes "0 \<le> q" "q \<le> 1"
  shows "pil_quality q = \<lfloor>float_add 1 (float_mul q 99)\<rfloor>"
    "\<lfloor>1 + q * 99\<rfloor> \<le> pil_quality q" "pil_quality q \<le> \<lceil>1 + q * 99\<rceil>"
    "1 \<le> pil_quality q" "pil_quality q \<le> 100"
proof -
  let ?y = "float_mul q 99"
  let ?v = "float_add 1 ?y"
  have a: "0 \<le> q * 99" "q * 99 \<le> 100" using assms by simp_all
  have y: "of_int \<lfloor>q * 99\<rfloor> \<le> ?y" "?y \<le> of_int \<lceil>q * 99\<rceil>"
    using float_round_between [OF a] by (simp_all add: float_mul_def)
  have c99: "\<lceil>q * 99\<rceil> \<le> 99" using assms(2) by (simp add: ceiling_le_iff)
  have f0: "0 \<le> \<lfloor>q * 99\<rfloor>" using a(1) by simp
  have y0: "0 \<le> ?y" using y(1) f0 by linarith
  have y99: "?y \<le> 99" using y(2) c99 by linarith
  have l0: "0 \<le> 1 + \<lfloor>q * 99\<rfloor>" "1 + \<lfloor>q * 99\<rfloor> < 2 ^ 53"
    using f0 a(2) by (simp_all add: floor_less_iff)
  have u0: "0 \<le> 1 + \<lceil>q * 99\<rceil>" "1 + \<lceil>q * 99\<rceil> < 2 ^ 53"
    using c99 a(1) by (simp_all add: le_ceiling_iff)
  have "float_round (of_int (1 + \<lfloor>q * 99\<rfloor>)) \<le> float_round (1 + ?y)"
    using y(1) f0 by (intro float_round_mono) simp_all
  then have lo: "of_int (1 + \<lfloor>q * 99\<rfloor>) \<le> ?v"
    unfolding float_round_of_int [OF l0] by (simp add: float_add_def)
  have "float_round (1 + ?y) \<le> float_round (of_int (1 + \<lceil>q * 99\<rceil>))"
    using y(2) y0 by (intro float_round_mono) simp_all
  then have hi: "?v \<le> of_int (1 + \<lceil>q * 99\<rceil>)"
    unfolding float_round_of_int [OF u0] by (simp add: float_add_def)
  have rf0: "0 \<le> real_of_int \<lfloor>q * 99\<rfloor>" using f0 by simp
  have rc99: "real_of_int \<lceil>q * 99\<rceil> \<le> 99" using c99 by linarith
  have v1: "1 \<le> ?v" using lo rf0 by linarith
  have v100: "?v \<le> 100" using hi rc99 by linarith
  have b1: "1 \<le> \<lfloor>?v\<rfloor>" using v1 by (simp add: le_floor_iff)
  have b100: "\<lfloor>?v\<rfloor> \<le> 100" using v100 by (simp add: floor_le_iff)
  show e: "pil_quality q = \<lfloor>?v\<rfloor>"
    using v1 b1 b100 by (simp add: pil_quality_def py_int_def)
  show "1 \<le> pil_quality q" "pil_quality q \<le> 100" using e b1 b100 by simp_all
  have "1 + \<lfloor>q * 99\<rfloor> \<le> \<lfloor>?v\<rfloor>" using lo by (simp only: le_floor_iff)
  moreover have "\<lfloor>1 + q * 99\<rfloor> = 1 + \<lfloor>q * 99\<rfloor>" by simp
  ultimately show "\<lfloor>1 + q * 99\<rfloor> \<le> pil_quality q" using e by simp
  have "\<lfloor>?v\<rfloor> \<le> 1 + \<lceil>q * 99\<rceil>" using hi by (simp add: floor_le_iff)
  moreover have "\<lceil>1 + q * 99\<rceil> = 1 + \<lceil>q * 99\<rceil>"
    using ceiling_add_one [of "q * 99"] by (simp add: add.commute)
  ultimately show "pil_quality q \<le> \<lceil>1 + q * 99\<rceil>" using e by simp
qed

lemma pil_quality_mono:
  assumes "0 \<le> q" "q \<le> q'" "q' \<le> 1"
  shows "pil_quality q \<le> pil_quality q'"
proof -
  have q1: "q \<le> 1" and q0: "0 \<le> q'" using assms by simp_all
  have "float_round (q * 99) \<le> float_round (q' * 99)"
    using assms by (intro float_round_mono) simp_all
  moreover have "0 \<le> float_round (q * 99)" using assms(1) by (intro float_round_nonneg) simp
  ultimately have "float_round (1 + float_round (q * 99)) \<le> float_round (1 + float_round (q' * 99))"
    by (intro float_round_mono) simp_all
  then have "\<lfloor>float_add 1 (float_mul q 99)\<rfloor> \<le> \<lfloor>float_add 1 (float_mul q' 99)\<rfloor>"
    unfolding float_add_def float_mul_def by (rule floor_mono)
  then show ?thesis
    unfolding pil_quality_float(1) [OF assms(1) q1] pil_quality_float(1) [OF q0 assms(3)] .
qed

lemma pil_quality_half: "pil_quality (1/2) = 50"
proof -
  have a: "float_round (99 / 2) = 99 / 2" using float_round_dyadic [of 99 1] by simp
  have b: "float_round (101 / 2) = 101 / 2" using float_round_dyadic [of 101 1] by simp
  show ?thesis by (simp add: pil_quality_def float_add_def float_mul_def a b py_int_def)
qed

lemma pil_quality_quarter: "pil_quality (1/4) = 25"
proof -
  have a: "float_round (99 / 4) = 99 / 4" using float_round_dyadic [of 99 2] by simp
  have b: "float_round (103 / 4) = 103 / 4" using float_round_dyadic [of 103 2] by simp
  show ?thesis by (simp add: pil_quality_def float_add_def float_mul_def a b py_int_def)
qed

lemma pil_quality_three_quarters: "pil_quality (3/4) = 75"
proof -
  have a: "float_round (297 / 4) = 297 / 4" using float_round_dyadic [of 297 2] by simp
  have b: "float_round (301 / 4) = 301 / 4" using float_round_dyadic [of 301 2] by simp
  show ?thesis by (simp add: pil_quality_def float_add_def float_mul_def a b py_int_def)
qed


lemma float_round_at:
  assumes "- 1022 \<le> e" "e \<le> 1023" "e = - 1022 \<or> 2 powi e \<le> \<bar>x\<bar>" "\<bar>x\<bar> < 2 powi (e + 1)"
  shows "float_round x = of_int (round_half_even (x / 2 powi (e - 52))) * 2 powi (e - 52)"
  using float_exponent_eq [OF assms] by (simp add: float_round_def Let_def)

lemma pil_quality_hundredth: "pil_quality (5764607523034235 / 2 ^ 59) = 1"
proof -
  have a: "float_round (5764607523034235 / 2 ^ 59 * 99) = 4458563631096791 / 2 ^ 52"
    by (subst float_round_at [of "- 1"]) (simp_all add: round_half_even_def Let_def)
  have b: "float_round (8962163258467287 / 2 ^ 52) = 8962163258467287 / 2 ^ 52"
    using float_round_dyadic [of 8962163258467287 52] by simp
  have c: "(1::real) + 4458563631096791 / 2 ^ 52 = 8962163258467287 / 2 ^ 52" by simp
  show ?thesis
    unfolding pil_quality_def float_add_def float_mul_def a c b by (simp add: py_int_def)
qed

lemma jpeg_save_args:
  assumes "upper (effective_format img ff) \<in> set [''JPEG'', ''JPG'']"
  shows "pillow_save_args img ff q opt =
           \<lparr>save_format = Some ''JPEG'', save_quality = Some (pil_quality q),
            save_optimize = opt, save_mode = ''RGB''\<rparr>"
  using assms by (simp add: pillow_save_args_def Let_def)

lemma webp_save_args:
  assumes "upper (effective_format img ff) = ''WEBP''"
  shows "pillow_save_args img ff q opt =
           \<lparr>save_format = Some ''WEBP'', save_quality = Some (pil_quality q),
            save_optimize = opt, save_mode = img_mode img\<rparr>"
  using assms by (simp add: pillow_save_args_def Let_def)

lemma compress_image_pillow:
  assumes "stat_size fs p = Some n" "pil_available env"
    and "dropWhile (\<lambda>c. c = CHR ''.'') (upper (path_suffix p)) \<noteq> ''PNG''"
    and "image_open env p = Inr img"
    and "pil_save env p (pillow_save_args img (dropWhile (\<lambda>c. c = CHR ''.'') (upper (path_suffix p))) (max 0 (min 1 q)) opt) = Inr k"
  shows "compress_image env p q opt fs = (Inr (compress_report n k ''pillow'' None), write_file p k fs)"
  using assms by (simp add: compress_image_def Let_def)

text \<open>
  C5, as the code has it. For every quality q in [0, 1] the encoder quality of the JPEG
  and the WEBP branch is the integer part of the double that Python computes for
  1 + q * 99 (a truncation, not a rounding). It is at least the integer part of the exact
  1 + 99 q and at most that value rounded up, it lies in [1, 100], and it does not
  decrease when q grows. A JPEG image is saved in mode RGB, and the image is saved on the
  path it was read from.
\<close>

theorem lossy_quality_truncates:
  assumes "0 \<le> q" and "q \<le> q'" and "q' \<le> 1"
  shows "pil_quality q = \<lfloor>float_add 1 (float_mul q 99)\<rfloor>
       \<and> \<lfloor>1 + q * 99\<rfloor> \<le> pil_quality q \<and> pil_quality q \<le> \<lceil>1 + q * 99\<rceil>
       \<and> 1 \<le> pil_quality q \<and> pil_quality q \<le> 100
       \<and> pil_quality q \<le> pil_quality q'
       \<and> (upper (effective_format img ff) \<in> set [''JPEG'', ''JPG''] \<longrightarrow>
            pillow_save_args img ff q opt =
              \<lparr>save_format = Some ''JPEG'', save_quality = Some (pil_quality q),
               save_optimize = opt, save_mode = ''RGB''\<rparr>)
       \<and> (upper (effective_format img ff) = ''WEBP'' \<longrightarrow>
            pillow_save_args img ff q opt =
              \<lparr>save_format = Some ''WEBP'', save_quality = Some (pil_quality q),
               save_optimize = opt, save_mode = img_mode img\<rparr>)
       \<and> (stat_size fs p = Some n \<and> pil_available env
            \<and> dropWhile (\<lambda>c. c = CHR ''.'') (upper (path_suffix p)) = ff \<and> ff \<noteq> ''PNG''
            \<and> image_open env p = Inr img
            \<and> pil_save env p (pillow_save_args img ff q opt) = Inr k \<longrightarrow>
            compress_image env p q opt fs =
              (Inr (compress_report n k ''pillow'' None), write_file p k fs))"
proof -
  have q1: "q \<le> 1" using assms by simp
  have clamp: "max 0 (min 1 q) = q" using assms(1) q1 by simp
  have a: "pil_quality q = \<lfloor>float_add 1 (float_mul q 99)\<rfloor>"
    using assms(1) q1 by (rule pil_quality_float(1))
  have s: "\<lfloor>1 + q * 99\<rfloor> \<le> pil_quality q" "pil_quality q \<le> \<lceil>1 + q * 99\<rceil>"
    using pil_quality_float(2,3) [OF assms(1) q1] by simp_all
  have b: "1 \<le> pil_quality q" "pil_quality q \<le> 100"
    using pil_quality_float(4,5) [OF assms(1) q1] by simp_all
  have c: "pil_quality q \<le> pil_quality q'" using assms by (rule pil_quality_mono)
  have d: "stat_size fs p = Some n \<and> pil_available env
            \<and> dropWhile (\<lambda>c. c = CHR ''.'') (upper (path_suffix p)) = ff \<and> ff \<noteq> ''PNG''
            \<and> image_open env p = Inr img
            \<and> pil_save env p (pillow_save_args img ff q opt) = Inr k \<longrightarrow>
            compress_image env p q opt fs =
              (Inr (compress_report n k ''pillow'' None), write_file p k fs)"
    using compress_image_pillow [of fs p n env img q opt k] clamp by auto
  show ?thesis using a s b c d jpeg_save_args webp_save_args by blast
qed

lemma upper_jpg: "upper ''.jpg'' = ''.JPG''" by (simp add: upper_def upper_char_def)
lemma suffix_demo: "path_suffix ''temp-images/photo.jpg'' = ''.jpg''"
  by (simp add: path_suffix_def basename_def Let_def)

theorem lossy_quality_truncates_witness:
  "pil_quality (1/2) = 50 \<and> pil_quality (3/4) = 75
   \<and> pillow_save_args \<lparr>img_format = Some ''JPEG'', img_mode = ''RGBA''\<rparr> ''JPG'' (1/2) True =
       \<lparr>save_format = Some ''JPEG'', save_quality = Some 50, save_optimize = True, save_mode = ''RGB''\<rparr>
   \<and> compress_image demo_compressor ''temp-images/photo.jpg'' (1/2) True
         [(''temp-images/photo.jpg'', 1000)] =
       (Inr (compress_report 1000 400 ''pillow'' None), [(''temp-images/photo.jpg'', 400)])"
proof -
  have h: "(0::real) \<le> 1/2" "(1/2::real) \<le> 3/4" "(3/4::real) \<le> 1" by simp_all
  have f: "dropWhile (\<lambda>c. c = CHR ''.'') (upper (path_suffix ''temp-images/photo.jpg'')) = ''JPG''"
    by (simp add: suffix_demo upper_jpg)
  have e: "upper (effective_format \<lparr>img_format = Some ''JPEG'', img_mode = ''RGBA''\<rparr> ''JPG'') = ''JPEG''"
    by (simp add: effective_format_def upper_def upper_char_def)
  show ?thesis
    using lossy_quality_truncates [OF h, of "\<lparr>img_format = Some ''JPEG'', img_mode = ''RGBA''\<rparr>" "''JPG''" True
        "[(''temp-images/photo.jpg'', 1000)]" "''temp-images/photo.jpg''" 1000 demo_compressor 400]
      pil_quality_half pil_quality_three_quarters f e
    by (simp add: demo_compressor_def stat_size_def)
qed

text \<open>
  At q = 0.25 the code passes 25 to the encoder, where rounding 25.75 gives 26; at
  q = 0.01 (the double 5764607523034235 / 2^59) it passes 1, where rounding 1.99 gives 2:
  the quality is not \<open>round(1 + 99 q)\<close>.
\<close>

theorem pil_quality_round_counterexample:
  "pil_quality (1/4) = 25 \<and> round (1 + 99 * (1/4) :: real) = 26
   \<and> pil_quality (5764607523034235 / 2 ^ 59) = 1
   \<and> round (1 + 99 * (5764607523034235 / 2 ^ 59) :: real) = 2"
  using pil_quality_quarter pil_quality_hundredth by (simp add: round_def)

text \<open>
  The integer part is that of the double, not of the exact value: at
  q = 0.0101010101010101 (the double 2911417940926381 / 2^58) the product is rounded to
  1 - 2^-53 and the sum to 2, so the encoder gets 2 where the exact 1 + 99 q is below 2.
\<close>

lemma pil_quality_carry:
  "pil_quality (2911417940926381 / 2 ^ 58) = 2
   \<and> \<lfloor>1 + 2911417940926381 / 2 ^ 58 * 99 :: real\<rfloor> = 1"
proof -
  have a: "float_round (2911417940926381 / 2 ^ 58 * 99) = 9007199254740991 / 2 ^ 53"
    by (subst float_round_at [of "- 1"]) (simp_all add: round_half_even_def Let_def)
  have b: "float_round (18014398509481983 / 2 ^ 53) = 2"
    by (subst float_round_at [of 0]) (simp_all add: round_half_even_def Let_def)
  have c: "(1::real) + 9007199254740991 / 2 ^ 53 = 18014398509481983 / 2 ^ 53" by simp
  have d: "pil_quality (2911417940926381 / 2 ^ 58) = 2"
    unfolding pil_quality_def float_add_def float_mul_def a c b by (simp add: py_int_def)
  show ?thesis using d by simp
qed




section \<open>Properties of the image URL fetcher\<close>

text \<open>
  C7. When the format is not one of jpg, png, svg and pdf, or the scale is outside
  [0.01, 4], \<open>get_figma_images_data\<close> returns the validation error of the first check
  that fails and the trace is the one it was given: no request is made, whatever the
  service would answer.
\<close>

theorem images_request_validated_first:
  assumes "format \<notin> set valid_formats \<or> \<not> (1 / 100 \<le> scale \<and> scale \<le> 4)"
  shows "get_figma_images_data env file_key token ids format scale tr =
           (Inl \<lparr>error = (if format \<notin> set valid_formats then InvalidFormat format
                            else InvalidScale scale),
                 status_code = None\<rparr>, tr)"
  using assms by (auto simp add: get_figma_images_data_def)

theorem images_request_validated_first_witness:
  "get_figma_images_data demo_figma ''KEY'' ''figd_token'' ''1:2,1:3'' ''gif'' 1 [] =
     (Inl \<lparr>error = InvalidFormat ''gif'', status_code = None\<rparr>, [])
   \<and> get_figma_images_data demo_figma ''KEY'' ''figd_token'' ''1:2,1:3'' ''png'' 5 [] =
     (Inl \<lparr>error = InvalidScale 5, status_code = None\<rparr>, [])"
proof -
  have a: "''gif'' \<notin> set valid_formats \<or> \<not> (1 / 100 \<le> (1::real) \<and> (1::real) \<le> 4)"
    by (simp add: valid_formats_def)
  have b: "''png'' \<notin> set valid_formats \<or> \<not> (1 / 100 \<le> (5::real) \<and> (5::real) \<le> 4)"
    by simp
  show ?thesis
    using images_request_validated_first [OF a, of demo_figma "''KEY''" "''figd_token''" "''1:2,1:3''" "[]"]
      images_request_validated_first [OF b, of demo_figma "''KEY''" "''figd_token''" "''1:2,1:3''" "[]"]
    by (simp add: valid_formats_def)
qed

section \<open>Properties of the tool\<close>

text \<open>
  C8. With the token set and export_children true, when the child query answers 200 and
  the parents have no child with an id, the tool returns the error "the node has no
  children to export" and the only request of the run is the child query: the trace
  grows by that one event, and nothing is fetched, downloaded or uploaded.
\<close>

theorem no_children_fails_after_one_query:
  assumes "getenv (environ w) ''FIGMA_ACCESS_TOKEN'' = Some token" and "token \<noteq> []"
    and "nodes_api (figma w) file_key token node_ids = Response 200 ns err message"
    and "collect_child_ids ns = []"
  shows "get_figma_images w file_key node_ids format scale q True st =
           (ToolFailed \<lparr>error = NoChildrenToExport, status_code = None\<rparr>,
            (rmtree ''temp-images'' st)\<lparr>trace := trace st @ [NodesQuery file_key node_ids]\<rparr>)"
  using assms by (simp add: get_figma_images_def get_child_node_ids_def rmtree_def Let_def)

theorem no_children_fails_after_one_query_witness:
  "get_figma_images demo_world ''KEY'' ''0:1'' ''png'' 1 (17 / 20) True demo_state =
     (ToolFailed \<lparr>error = NoChildrenToExport, status_code = None\<rparr>,
      \<lparr>files = [], dirs = [], trace = [NodesQuery ''KEY'' ''0:1'']\<rparr>)"
proof -
  have a: "getenv (environ demo_world) ''FIGMA_ACCESS_TOKEN'' = Some ''figd_token''"
    by (simp add: demo_world_def demo_environ_def getenv_def)
  have b: "''figd_token'' \<noteq> []" by simp
  have c: "nodes_api (figma demo_world) ''KEY'' ''figd_token'' ''0:1'' =
             Response 200 [(''0:1'', Some \<lparr>doc_name = Some ''Empty frame'', doc_children = []\<rparr>)] None None"
    by (simp add: demo_world_def demo_figma_def)
  have d: "collect_child_ids [(''0:1'', Some \<lparr>doc_name = Some ''Empty frame'', doc_children = []\<rparr>)] = []"
    by (simp add: collect_child_ids_def)
  show ?thesis
    using no_children_fails_after_one_query [OF a b c d, of "''png''" 1 "17 / 20" demo_state]
    by (simp add: rmtree_def demo_state_def)
qed

section \<open>Properties of the upload provider and dispatcher\<close>

text \<open>
  What \<open>upload\<close> makes of an answer of status 200 whose body is a JSON object, for a
  file that exists. When \<open>code\<close> equals 0 or \<open>success\<close> is true, the upload succeeds
  with the \<open>data\<close> field when it is a string, with the \<open>url\<close> field of \<open>data\<close> when
  \<open>data\<close> is an object that has one, and with the top-level \<open>url\<close> field when
  \<open>data\<close> is neither and the body has one. When \<open>code\<close> is not 0 and \<open>success\<close> is
  not true, the upload fails with a server error carrying the \<open>message\<close> field when it
  is present and true, and "Unknown server error" when the body has no \<open>message\<close>; when
  the \<open>message\<close> is present and not true (empty, null, zero, false), the test
  \<open>if error_msg:\<close> does not see it and the upload is reported as a success with no URL.
\<close>

lemma upload_of_response:
  assumes "stat_size fs p = Some n"
    and "upload_api env prov p = Inr (200, text, Some (JObj d))"
  shows "((equals_zero (dict_get d ''code'') \<or> truthy (dict_get d ''success'')) \<longrightarrow>
            dict_get d ''data'' = JStr s \<longrightarrow>
            upload env prov fs p = (Uploaded (basename p) n (JStr s) p, [UploadPost p]))
       \<and> ((equals_zero (dict_get d ''code'') \<or> truthy (dict_get d ''success'')) \<longrightarrow>
            dict_get d ''data'' = JObj data_field \<longrightarrow> map_of data_field ''url'' = Some v \<longrightarrow>
            upload env prov fs p = (Uploaded (basename p) n v p, [UploadPost p]))
       \<and> ((equals_zero (dict_get d ''code'') \<or> truthy (dict_get d ''success'')) \<longrightarrow>
            (\<forall>x. dict_get d ''data'' \<noteq> JStr x) \<longrightarrow> (\<forall>x. dict_get d ''data'' \<noteq> JObj x) \<longrightarrow>
            map_of d ''url'' = Some v \<longrightarrow>
            upload env prov fs p = (Uploaded (basename p) n v p, [UploadPost p]))
       \<and> (\<not> (equals_zero (dict_get d ''code'') \<or> truthy (dict_get d ''success'')) \<longrightarrow>
            map_of d ''message'' = Some m \<longrightarrow> truthy m \<longrightarrow>
            upload env prov fs p = (UploadFailed (ServerError m) p, [UploadPost p]))
       \<and> (\<not> (equals_zero (dict_get d ''code'') \<or> truthy (dict_get d ''success'')) \<longrightarrow>
            map_of d ''message'' = None \<longrightarrow>
            upload env prov fs p =
              (UploadFailed (ServerError (JStr ''Unknown server error'')) p, [UploadPost p]))
       \<and> (\<not> (equals_zero (dict_get d ''code'') \<or> truthy (dict_get d ''success'')) \<longrightarrow>
            map_of d ''message'' = Some m \<longrightarrow> \<not> truthy m \<longrightarrow>
            upload env prov fs p = (Uploaded (basename p) n JNull p, [UploadPost p]))"
  using assms
  by (auto simp add: upload_def parse_response_def dict_get_def split: json.splits)

text \<open>
  An accepted body of the documented shape, a body that is only \<open>{url: ...}\<close> (refused
  with "Unknown server error"), and a body with code 0 whose \<open>data\<close> is a number and
  that has no \<open>url\<close> (reported as a success with no URL).
\<close>

lemma upload_of_demo_responses:
  "upload demo_uploader demo_provider [(''temp-images/logo.png'', 700)] ''temp-images/logo.png'' =
     (Uploaded ''logo.png'' 700 (JStr ''https://cdn.example.com/logo.png'') ''temp-images/logo.png'',
      [UploadPost ''temp-images/logo.png''])"
  "upload demo_uploader demo_provider [(''temp-images/bare.png'', 10)] ''temp-images/bare.png'' =
     (UploadFailed (ServerError (JStr ''Unknown server error'')) ''temp-images/bare.png'',
      [UploadPost ''temp-images/bare.png''])"
  "upload demo_uploader demo_provider [(''temp-images/odd.png'', 10)] ''temp-images/odd.png'' =
     (Uploaded ''odd.png'' 10 JNull ''temp-images/odd.png'', [UploadPost ''temp-images/odd.png''])"
  by (simp_all add: upload_def demo_uploader_def stat_size_def parse_response_def dict_get_def
        basename_def)

text \<open>
  C9 has the parser answer an explicit failure code with a provider-level error that
  carries the server's message. The code does so only when the message is true: for the
  body \<open>{"code": 1, "message": ""}\<close> \<open>_parse_response\<close> returns no URL and the empty
  message, \<open>if error_msg:\<close> takes the empty message for no error, and \<open>upload\<close>
  returns a success whose \<open>url\<close> is None. The body \<open>{"code": 500, "message": null}\<close>
  ends the same way.
\<close>

theorem refused_upload_reported_as_success:
  "parse_response [(''code'', JInt 1), (''message'', JStr [])] = (JNull, JStr [])
   \<and> upload refusing_uploader demo_provider [(''temp-images/logo.png'', 700)] ''temp-images/logo.png'' =
       (Uploaded ''logo.png'' 700 JNull ''temp-images/logo.png'', [UploadPost ''temp-images/logo.png''])
   \<and> upload_succeeded
         (fst (upload refusing_uploader demo_provider [(''temp-images/logo.png'', 700)]
                 ''temp-images/logo.png''))
   \<and> parse_response [(''code'', JInt 500), (''message'', JNull)] = (JNull, JNull)
   \<and> upload refusing_uploader demo_provider [(''temp-images/icon.png'', 700)] ''temp-images/icon.png'' =
       (Uploaded ''icon.png'' 700 JNull ''temp-images/icon.png'', [UploadPost ''temp-images/icon.png''])"
  by (simp add: upload_def refusing_uploader_def stat_size_def parse_response_def dict_get_def
        basename_def)

subsection \<open>Gathering\<close>

lemma run_in_order_pure:
  assumes "\<And>x s. fst (task x s) = f x"
  shows "fst (run_in_order task xs order s) = map (\<lambda>i. (i, f (xs ! i))) order"
proof (induction order arbitrary: s)
  case Nil
  show ?case by simp
next
  case (Cons i order)
  obtain r s' where t: "task (xs ! i) s = (r, s')" by (cases "task (xs ! i) s")
  have r: "r = f (xs ! i)" using assms [of "xs ! i" s] t by simp
  obtain fin s'' where u: "run_in_order task xs order s' = (fin, s'')"
    by (cases "run_in_order task xs order s'")
  have "fin = map (\<lambda>i. (i, f (xs ! i))) order" using Cons.IH [of s'] u by simp
  then show ?case using t u r by simp
qed

lemma sort_indexed:
  "sort_key fst (map (\<lambda>i. (i, g i)) (sort_key finish [0..<n])) = map (\<lambda>i. (i, g i)) [0..<n]"
proof (rule sort_key_inj_key_eq)
  show "mset (map (\<lambda>i. (i, g i)) (sort_key finish [0..<n])) = mset (map (\<lambda>i. (i, g i)) [0..<n])"
    by simp
  show "inj_on fst (set (map (\<lambda>i. (i, g i)) (sort_key finish [0..<n])))"
    by (auto simp add: inj_on_def)
  show "sorted (map fst (map (\<lambda>i. (i, g i)) [0..<n]))"
    by (simp add: comp_def)
qed

lemma gather_pure:
  assumes "\<And>x s. fst (task x s) = f x"
  shows "fst (gather finish task xs s) = map f xs"
proof -
  have "fst (gather finish task xs s) =
          map snd (sort_key fst (fst (run_in_order task xs (sort_key finish [0..<length xs]) s)))"
    by (simp add: gather_def split: prod.splits)
  also have "\<dots> = map snd (map (\<lambda>i. (i, f (xs ! i))) [0..<length xs])"
    by (simp only: run_in_order_pure [of task f, OF assms] sort_indexed)
  also have "\<dots> = map f (map ((!) xs) [0..<length xs])"
    by simp
  also have "\<dots> = map f xs"
    by (simp only: map_nth)
  finally show ?thesis .
qed

lemma upload_gather:
  "fst (gather finish (\<lambda>file_path t. case upload_file env uenv fs file_path of (r, ev) \<Rightarrow> (r, t @ ev))
          file_paths tr) = map (\<lambda>p. fst (upload_file env uenv fs p)) file_paths"
  by (rule gather_pure) (simp split: prod.splits)

lemma filter_split_length:
  "length (filter P xs) = length xs - length (filter (\<lambda>x. \<not> P x) xs)"
  using sum_length_filter_compl [of P xs] by simp

lemma upload_path_file: "upload_path (fst (upload_file env uenv fs p)) = p"
  by (simp add: upload_file_def upload_def split: sum.splits option.splits prod.splits json.splits)

subsection \<open>A download does not depend on the files it finds\<close>

lemma stat_write_same: "stat_size (write_file p n fs) p = Some n"
  by (induction fs) (auto simp add: stat_size_def)

lemma pngquant_fst:
  assumes "stat_size fs p = stat_size fs' p"
  shows "fst (compress_png_with_pngquant env p q fs) = fst (compress_png_with_pngquant env p q fs')"
  using assms
  by (simp add: compress_png_with_pngquant_def split: option.splits prod.splits proc_outcome.splits)

lemma compress_fst:
  assumes "stat_size fs p = stat_size fs' p"
  shows "fst (compress_image env p q opt fs) = fst (compress_image env p q opt fs')"
  using assms pngquant_fst [OF assms]
  by (simp add: compress_image_def Let_def split: option.splits sum.splits)

lemma download_attempts_fst:
  "fst (download_attempts env cenv url fp fn q m as fs) =
   fst (download_attempts env cenv url fp fn q m as fs')"
proof (induction as)
  case Nil
  show ?case by simp
next
  case (Cons a as)
  have c: "fst (compress_image cenv fp q True (write_file fp n fs)) =
           fst (compress_image cenv fp q True (write_file fp n fs'))" for n
    by (rule compress_fst) (simp add: stat_write_same)
  obtain r1 e1 f1 where x: "download_attempts env cenv url fp fn q m as fs = (r1, e1, f1)"
    by (cases "download_attempts env cenv url fp fn q m as fs")
  obtain r2 e2 f2 where y: "download_attempts env cenv url fp fn q m as fs' = (r2, e2, f2)"
    by (cases "download_attempts env cenv url fp fn q m as fs'")
  have ih: "r1 = r2" using Cons.IH x y by simp
  show ?case
  proof (cases "download_api env url a")
    case (DownloadRaised e)
    then show ?thesis using ih x y by simp
  next
    case (DownloadResponse status n)
    show ?thesis
    proof (cases "status = 200")
      case True
      obtain c1 g1 where u: "compress_image cenv fp q True (write_file fp n fs) = (c1, g1)"
        by (cases "compress_image cenv fp q True (write_file fp n fs)")
      obtain c2 g2 where v: "compress_image cenv fp q True (write_file fp n fs') = (c2, g2)"
        by (cases "compress_image cenv fp q True (write_file fp n fs')")
      have "c1 = c2" using c [of n] u v by simp
      then show ?thesis using DownloadResponse True u v
        by (simp add: Let_def split: sum.splits)
    next
      case False
      then show ?thesis using DownloadResponse ih x y by simp
    qed
  qed
qed

lemma download_fst:
  "fst (download_image_from_url env cenv url sp fn q m st) =
   fst (download_image_from_url env cenv url sp fn q m st0)"
proof (cases "mkdir_error env sp")
  case None
  then show ?thesis
    using download_attempts_fst [of env cenv url "path_join sp fn" fn q m "[0..<nat (m + 1)]" "files st" "files st0"]
    by (auto simp add: download_image_from_url_def split: prod.splits)
next
  case (Some e)
  then show ?thesis by (simp add: download_image_from_url_def)
qed

lemma collect_results_lists:
  "collect_results names trs dl fd =
     (dl @ concat (map (\<lambda>(t, r). case r of Inr (Inr d) \<Rightarrow> [download_entry names t d] | _ \<Rightarrow> []) trs),
      fd @ concat (map (\<lambda>(t, r). case r of Inl e \<Rightarrow> [(task_node_id t, TaskRaised e)]
                                   | Inr (Inl err) \<Rightarrow> [(task_node_id t, err)]
                                   | Inr (Inr d) \<Rightarrow> []) trs))"
proof (induction trs arbitrary: dl fd)
  case Nil
  show ?case by simp
next
  case (Cons tr trs)
  obtain t r where tr: "tr = (t, r)" by (cases tr)
  show ?case unfolding tr
    by (cases r rule: download_succeeded.cases) (simp_all add: Cons.IH download_entry_def)
qed

lemma collect_results_ids:
  "map df_node_id (fst (collect_results names (map (\<lambda>t. (t, f t)) ts) [] fd)) =
     map task_node_id (filter (\<lambda>t. download_succeeded (f t)) ts)"
  unfolding collect_results_lists
proof (induction ts)
  case Nil
  show ?case by simp
next
  case (Cons t ts)
  then show ?case
    by (cases "f t" rule: download_succeeded.cases) (simp_all add: download_entry_def)
qed

lemma collect_results_failed:
  "\<exists>new. snd (collect_results names (map (\<lambda>t. (t, f t)) ts) [] fd) = fd @ new
        \<and> map fst new = map task_node_id (filter (\<lambda>t. \<not> download_succeeded (f t)) ts)"
  unfolding collect_results_lists
proof (induction ts)
  case Nil
  show ?case by simp
next
  case (Cons t ts)
  then show ?case
    by (cases "f t" rule: download_succeeded.cases) auto
qed

lemma demo_provider_built: "get_storage_provider demo_environ = Inr demo_provider"
  by (simp add: get_storage_provider_def demo_environ_def getenv_def provider_config_def
        custom_uploader_def demo_provider_def lower_def upper_def lower_char_def upper_char_def)

lemma demo_upload_outcomes:
  "fst (upload_file demo_environ demo_uploader demo_uploads ''temp-images/logo.png'') =
     Uploaded ''logo.png'' 700 (JStr ''https://cdn.example.com/logo.png'') ''temp-images/logo.png''"
  "fst (upload_file demo_environ demo_uploader demo_uploads ''temp-images/bad.png'') =
     UploadFailed (HttpError 500 ''Internal Server Error'') ''temp-images/bad.png''"
  "fst (upload_file demo_environ demo_uploader demo_uploads ''temp-images/icon.png'') =
     Uploaded ''icon.png'' 300 (JStr ''https://cdn.example.com/icon.png'') ''temp-images/icon.png''"
  by (simp_all add: upload_file_def demo_provider_built upload_def demo_uploads_def stat_size_def
        demo_uploader_def parse_response_def dict_get_def basename_def)

lemma demo_download_outcomes:
  "fst (download_image_from_url demo_figma demo_compressor ''https://img.example.com/down''
          ''temp-images'' ''down.png'' (17 / 20) 3 \<lparr>files = [], dirs = [], trace = []\<rparr>) =
     Inr (Inl (BadStatus 503))"
  "fst (download_image_from_url demo_figma demo_compressor ''https://img.example.com/ok''
          ''temp-images'' ''ok.svg'' (17 / 20) 3 \<lparr>files = [], dirs = [], trace = []\<rparr>) =
     Inr (Inr \<lparr>dl_file_path = ''temp-images/ok.svg'', dl_filename = ''ok.svg'',
               dl_file_size = 1000, dl_compression = None\<rparr>)"
  by (simp_all add: download_image_from_url_def demo_figma_def upt_rec path_join_def
        is_compression_supported_def path_suffix_def basename_def lower_def lower_char_def Let_def)

text \<open>
  C2. Take N file paths of which K fail to upload, each on its own account. Whatever the
  order in which the uploads finish (\<open>upload_finish\<close> is arbitrary),
  \<open>upload_multiple_files\<close> reports N - K successes and K failures, total_files = N,
  successful_count = N - K, failed_count = K and success exactly when K = 0; every result
  carries the path it was made for, and an exception of one upload is the failure of
  that upload. Likewise for the downloads of the export: of N tasks of which K' fail,
  whatever the order in which they finish, N - K' go to \<open>downloaded_files\<close> and K' are
  added to \<open>failed_downloads\<close> (after the nodes that had no URL), each under the node
  id of its task.
\<close>

theorem batch_counts:
  assumes up: "length (filter (\<lambda>p. \<not> upload_succeeded (fst (upload_file env uenv fs p))) file_paths) = K"
    and dl: "length (filter (\<lambda>t. \<not> download_succeeded (fst (download_image_from_url (figma w)
                 (compressor w) (task_url t) ''temp-images'' (task_filename t) q 3 s0))) tasks) = K'"
  shows "(case upload_multiple_files env uenv fs file_paths tr of (r, tr') \<Rightarrow>
            length (successful_uploads r) = length file_paths - K
          \<and> length (failed_uploads r) = K
          \<and> total_files r = length file_paths
          \<and> successful_count r = length file_paths - K
          \<and> failed_count r = K
          \<and> (batch_success r \<longleftrightarrow> K = 0)
          \<and> map upload_path (successful_uploads r) =
              filter (\<lambda>p. upload_succeeded (fst (upload_file env uenv fs p))) file_paths
          \<and> map upload_path (failed_uploads r) =
              filter (\<lambda>p. \<not> upload_succeeded (fst (upload_file env uenv fs p))) file_paths
          \<and> (\<forall>e. get_storage_provider env = Inl e \<longrightarrow>
                 failed_uploads r = map (UploadFailed (UploadException e)) file_paths)
          \<and> (\<forall>prov p size e. get_storage_provider env = Inr prov \<and> p \<in> set file_paths
                 \<and> stat_size fs p = Some size \<and> upload_api uenv prov p = Inl e \<longrightarrow>
                 UploadFailed (UploadException e) p \<in> set (failed_uploads r)))
       \<and> (case run_downloads w names q tasks fd0 st of ((downloaded, failed), st') \<Rightarrow>
            length downloaded = length tasks - K'
          \<and> length failed = length fd0 + K'
          \<and> take (length fd0) failed = fd0
          \<and> map df_node_id downloaded =
              map task_node_id (filter (\<lambda>t. download_succeeded (fst (download_image_from_url (figma w)
                 (compressor w) (task_url t) ''temp-images'' (task_filename t) q 3 s0))) tasks)
          \<and> map fst (drop (length fd0) failed) =
              map task_node_id (filter (\<lambda>t. \<not> download_succeeded (fst (download_image_from_url (figma w)
                 (compressor w) (task_url t) ''temp-images'' (task_filename t) q 3 s0))) tasks))"
proof -
  let ?u = "\<lambda>p. fst (upload_file env uenv fs p)"
  let ?results = "map ?u file_paths"
  obtain r tr' where run: "upload_multiple_files env uenv fs file_paths tr = (r, tr')"
    by (cases "upload_multiple_files env uenv fs file_paths tr")
  have g: "fst (gather (upload_finish uenv)
             (\<lambda>file_path t. case upload_file env uenv fs file_path of (r, ev) \<Rightarrow> (r, t @ ev))
             file_paths tr) = ?results"
    by (rule upload_gather)
  have s: "successful_uploads r = filter upload_succeeded ?results"
    and f: "failed_uploads r = filter (\<lambda>x. \<not> upload_succeeded x) ?results"
    and n: "total_files r = length file_paths"
    and sc: "successful_count r = length (successful_uploads r)"
    and fc: "failed_count r = length (failed_uploads r)"
    and ok: "batch_success r = (failed_uploads r = [])"
    using run g by (auto simp add: upload_multiple_files_def Let_def split: prod.splits)
  have fl: "length (failed_uploads r) = K"
    unfolding f using up by (simp add: filter_map comp_def)
  have sl: "length (successful_uploads r) = length file_paths - K"
    unfolding s using up filter_split_length [of upload_succeeded ?results]
    by (simp add: filter_map comp_def)
  have sp: "map upload_path (successful_uploads r) = filter (\<lambda>p. upload_succeeded (?u p)) file_paths"
    unfolding s by (simp add: filter_map comp_def upload_path_file)
  have fp: "map upload_path (failed_uploads r) = filter (\<lambda>p. \<not> upload_succeeded (?u p)) file_paths"
    unfolding f by (simp add: filter_map comp_def upload_path_file)
  have x1: "failed_uploads r = map (UploadFailed (UploadException e)) file_paths"
    if "get_storage_provider env = Inl e" for e
  proof -
    have "?results = map (UploadFailed (UploadException e)) file_paths"
      using that by (simp add: upload_file_def)
    then show ?thesis unfolding f by (simp add: filter_map comp_def)
  qed
  have x2: "UploadFailed (UploadException e) p \<in> set (failed_uploads r)"
    if "get_storage_provider env = Inr prov" "p \<in> set file_paths"
      "stat_size fs p = Some size" "upload_api uenv prov p = Inl e" for prov p size e
  proof -
    have "?u p = UploadFailed (UploadException e) p"
      using that by (simp add: upload_file_def upload_def)
    then show ?thesis unfolding f using that(2) by force
  qed
  have uploads: "case upload_multiple_files env uenv fs file_paths tr of (r, tr') \<Rightarrow>
            length (successful_uploads r) = length file_paths - K
          \<and> length (failed_uploads r) = K
          \<and> total_files r = length file_paths
          \<and> successful_count r = length file_paths - K
          \<and> failed_count r = K
          \<and> (batch_success r \<longleftrightarrow> K = 0)
          \<and> map upload_path (successful_uploads r) =
              filter (\<lambda>p. upload_succeeded (fst (upload_file env uenv fs p))) file_paths
          \<and> map upload_path (failed_uploads r) =
              filter (\<lambda>p. \<not> upload_succeeded (fst (upload_file env uenv fs p))) file_paths
          \<and> (\<forall>e. get_storage_provider env = Inl e \<longrightarrow>
                 failed_uploads r = map (UploadFailed (UploadException e)) file_paths)
          \<and> (\<forall>prov p size e. get_storage_provider env = Inr prov \<and> p \<in> set file_paths
                 \<and> stat_size fs p = Some size \<and> upload_api uenv prov p = Inl e \<longrightarrow>
                 UploadFailed (UploadException e) p \<in> set (failed_uploads r))"
    unfolding run using sl fl n sc fc ok sp fp x1 x2 by auto
  let ?d = "\<lambda>t. fst (download_image_from_url (figma w) (compressor w) (task_url t)
                   ''temp-images'' (task_filename t) q 3 s0)"
  obtain downloaded failed st' where rd: "run_downloads w names q tasks fd0 st = ((downloaded, failed), st')"
    by (cases "run_downloads w names q tasks fd0 st") auto
  have gd: "fst (gather (download_finish (figma w))
             (\<lambda>task. download_image_from_url (figma w) (compressor w) (task_url task)
                        ''temp-images'' (task_filename task) q 3) tasks st) = map ?d tasks"
    by (rule gather_pure) (rule download_fst)
  have z: "zip tasks (map ?d tasks) = map (\<lambda>t. (t, ?d t)) tasks"
    by (simp add: zip_map2 zip_same_conv_map)
  have cr: "collect_results names (map (\<lambda>t. (t, ?d t)) tasks) [] fd0 = (downloaded, failed)"
    using rd gd z by (auto simp add: run_downloads_def split: prod.splits)
  have ids: "map df_node_id downloaded = map task_node_id (filter (\<lambda>t. download_succeeded (?d t)) tasks)"
    using collect_results_ids [of names ?d tasks fd0] cr by simp
  obtain new where new: "failed = fd0 @ new"
    "map fst new = map task_node_id (filter (\<lambda>t. \<not> download_succeeded (?d t)) tasks)"
    using collect_results_failed [of names ?d tasks fd0] cr by auto
  have ln: "length new = K'"
    using arg_cong [OF new(2), of length] dl by simp
  have ld: "length downloaded = length tasks - K'"
    using arg_cong [OF ids, of length] dl filter_split_length [of "\<lambda>t. download_succeeded (?d t)" tasks]
    by simp
  have downloads: "case run_downloads w names q tasks fd0 st of ((downloaded, failed), st') \<Rightarrow>
            length downloaded = length tasks - K'
          \<and> length failed = length fd0 + K'
          \<and> take (length fd0) failed = fd0
          \<and> map df_node_id downloaded = map task_node_id (filter (\<lambda>t. download_succeeded (?d t)) tasks)
          \<and> map fst (drop (length fd0) failed) =
              map task_node_id (filter (\<lambda>t. \<not> download_succeeded (?d t)) tasks)"
    unfolding rd using ld ln new ids by simp
  show ?thesis using uploads downloads by (rule conjI)
qed

theorem batch_counts_witness:
  "(case upload_multiple_files demo_environ demo_uploader demo_uploads
           [''temp-images/logo.png'', ''temp-images/bad.png'', ''temp-images/icon.png''] [] of
      (r, tr') \<Rightarrow>
        length (successful_uploads r) = 2 \<and> length (failed_uploads r) = 1
        \<and> total_files r = 3 \<and> successful_count r = 2 \<and> failed_count r = 1
        \<and> \<not> batch_success r
        \<and> map upload_path (successful_uploads r) = [''temp-images/logo.png'', ''temp-images/icon.png'']
        \<and> map upload_path (failed_uploads r) = [''temp-images/bad.png''])
   \<and> (case run_downloads demo_world Map.empty (17 / 20) demo_tasks [(''3:0'', EmptyUrl)]
              \<lparr>files = [], dirs = [], trace = []\<rparr> of
        ((downloaded, failed), st') \<Rightarrow>
          length downloaded = 1 \<and> length failed = 2
          \<and> map df_node_id downloaded = [''3:2'']
          \<and> map fst failed = [''3:0'', ''3:1''])"
proof -
  have w: "figma demo_world = demo_figma" "compressor demo_world = demo_compressor"
    by (simp_all add: demo_world_def)
  have a: "length (filter (\<lambda>p. \<not> upload_succeeded (fst (upload_file demo_environ demo_uploader demo_uploads p)))
             [''temp-images/logo.png'', ''temp-images/bad.png'', ''temp-images/icon.png'']) = 1"
    by (simp add: demo_upload_outcomes)
  have b: "length (filter (\<lambda>t. \<not> download_succeeded (fst (download_image_from_url (figma demo_world)
                 (compressor demo_world) (task_url t) ''temp-images'' (task_filename t) (17 / 20) 3
                 \<lparr>files = [], dirs = [], trace = []\<rparr>))) demo_tasks) = 1"
    by (simp add: w demo_tasks_def demo_download_outcomes)
  have c: "map fst failed = [''3:0'', ''3:1'']"
    if "take (Suc 0) failed = [(''3:0'', EmptyUrl)]" and "map fst (drop (Suc 0) failed) = [''3:1'']"
    for failed :: "(string \<times> download_error) list"
  proof -
    have "failed = take (Suc 0) failed @ drop (Suc 0) failed" by simp
    then have "map fst failed = map fst (take (Suc 0) failed) @ map fst (drop (Suc 0) failed)"
      by (metis map_append)
    then show ?thesis using that by simp
  qed
  show ?thesis
    using batch_counts [where tr = "[]" and names = Map.empty and ?fd0.0 = "[(''3:0'', EmptyUrl)]"
        and st = "\<lparr>files = [], dirs = [], trace = []\<rparr>", OF a b] c
    by (auto simp add: w demo_tasks_def demo_download_outcomes demo_upload_outcomes split: prod.splits)
qed

section \<open>Properties of the downloader\<close>

lemma download_attempts_all_fail:
  assumes "\<And>a. k \<le> a \<Longrightarrow> a \<le> m \<Longrightarrow> failed_reply (download_api env url a)"
    and "k \<le> m"
  shows "download_attempts env cenv url fp fn q (int m) [k..<Suc m] fs =
           (Inl (reply_error (download_api env url m)), retry_events url k m, fs)"
  using assms
proof (induction "m - k" arbitrary: k)
  case 0
  then have km: "k = m" by simp
  have f: "failed_reply (download_api env url m)" using 0 km by simp
  have l: "[m..<Suc m] = [m]" by simp
  show ?case unfolding km l using f
    by (simp add: failed_reply_def reply_error_def retry_events_def split: download_reply.splits)
next
  case (Suc d)
  then have lt: "k < m" by simp
  have f: "failed_reply (download_api env url k)" using Suc.prems(1) [of k] lt by simp
  have l: "[k..<Suc m] = k # [Suc k..<Suc m]" using lt by (simp add: upt_conv_Cons)
  have ih: "download_attempts env cenv url fp fn q (int m) [Suc k..<Suc m] fs =
              (Inl (reply_error (download_api env url m)), retry_events url (Suc k) m, fs)"
    using Suc.hyps(1) [of "Suc k"] Suc.hyps(2) Suc.prems lt by simp
  have r: "retry_events url k m = DownloadGet url # Sleep (2 ^ k) # retry_events url (Suc k) m"
    using lt by (simp add: retry_events_def upt_conv_Cons)
  show ?case unfolding l using f lt ih r
    by (simp add: failed_reply_def split: download_reply.splits)
qed

lemma sleeps_retry: "sleeps (retry_events url k m) = map (\<lambda>a. 2 ^ a) [k..<m]"
proof (induction "m - k" arbitrary: k)
  case 0
  then show ?case by (simp add: retry_events_def)
next
  case (Suc d)
  then have lt: "k < m" by simp
  have r: "retry_events url k m = DownloadGet url # Sleep (2 ^ k) # retry_events url (Suc k) m"
    using lt by (simp add: retry_events_def upt_conv_Cons)
  have "sleeps (retry_events url (Suc k) m) = map (\<lambda>a. 2 ^ a) [Suc k..<m]"
    using Suc.hyps(1) [of "Suc k"] Suc.hyps(2) by simp
  then show ?case unfolding r using lt by (simp add: upt_conv_Cons)
qed

lemma gets_retry: "length (filter is_get (retry_events url k m)) = Suc (m - k)"
proof (induction "m - k" arbitrary: k)
  case 0
  then show ?case by (simp add: retry_events_def)
next
  case (Suc d)
  then have lt: "k < m" by simp
  have r: "retry_events url k m = DownloadGet url # Sleep (2 ^ k) # retry_events url (Suc k) m"
    using lt by (simp add: retry_events_def upt_conv_Cons)
  have "length (filter is_get (retry_events url (Suc k) m)) = Suc (m - Suc k)"
    using Suc.hyps(1) [of "Suc k"] Suc.hyps(2) by simp
  then show ?case unfolding r using lt by simp
qed

lemma powers_increasing: "sorted_wrt (<) (map (\<lambda>a. (2::nat) ^ a) [k..<m])"
  by (simp add: sorted_wrt_map sorted_wrt_iff_nth_less)

text \<open>
  C3. Let max_retries be at least 0 and the directory be there. When every attempt at the
  URL fails, by a status other than 200 or by an exception, \<open>download_image_from_url\<close>
  makes exactly max_retries + 1 requests, sleeps 2 ^ attempt seconds after each attempt
  but the last (1, 2, 4, ...: strictly increasing), and returns the failure of the last
  attempt as a result; it does not raise.
\<close>

theorem download_retries_then_fails:
  assumes "0 \<le> max_retries"
    and "mkdir_error env save_path = None"
    and "\<And>a. a \<le> nat max_retries \<Longrightarrow> failed_reply (download_api env url a)"
  shows "download_image_from_url env cenv url save_path filename q max_retries st =
           (Inr (Inl (reply_error (download_api env url (nat max_retries)))),
            st\<lparr>dirs := List.insert save_path (dirs st),
               trace := trace st @ retry_events url 0 (nat max_retries)\<rparr>)
       \<and> int (length (filter is_get (retry_events url 0 (nat max_retries)))) = max_retries + 1
       \<and> sleeps (retry_events url 0 (nat max_retries)) = map (\<lambda>a. 2 ^ a) [0..<nat max_retries]
       \<and> sorted_wrt (<) (sleeps (retry_events url 0 (nat max_retries)))"
proof -
  let ?m = "nat max_retries"
  have m: "int ?m = max_retries" "nat (max_retries + 1) = Suc ?m" using assms(1) by simp_all
  have a: "download_attempts env cenv url (path_join save_path filename) filename q (int ?m)
             [0..<Suc ?m] (files st) =
           (Inl (reply_error (download_api env url ?m)), retry_events url 0 ?m, files st)"
    by (rule download_attempts_all_fail) (use assms(3) in auto)
  have r: "download_image_from_url env cenv url save_path filename q max_retries st =
           (Inr (Inl (reply_error (download_api env url ?m))),
            st\<lparr>dirs := List.insert save_path (dirs st),
               trace := trace st @ retry_events url 0 ?m\<rparr>)"
    using a assms(2) unfolding download_image_from_url_def m by simp
  show ?thesis using r gets_retry [of url 0 ?m] sleeps_retry [of url 0 ?m] powers_increasing [of 0 ?m] m
    by simp
qed

theorem download_retries_then_fails_witness:
  "download_image_from_url demo_figma demo_compressor ''https://img.example.com/down''
     ''temp-images'' ''down.png'' (17 / 20) 3 \<lparr>files = [], dirs = [], trace = []\<rparr> =
     (Inr (Inl (BadStatus 503)),
      \<lparr>files = [], dirs = [''temp-images''],
       trace = [DownloadGet ''https://img.example.com/down'', Sleep 1,
                DownloadGet ''https://img.example.com/down'', Sleep 2,
                DownloadGet ''https://img.example.com/down'', Sleep 4,
                DownloadGet ''https://img.example.com/down'']\<rparr>)"
proof -
  have a: "(0::int) \<le> 3" by simp
  have b: "mkdir_error demo_figma ''temp-images'' = None" by (simp add: demo_figma_def)
  have c: "failed_reply (download_api demo_figma ''https://img.example.com/down'' a)" for a
    by (simp add: demo_figma_def failed_reply_def)
  have d: "reply_error (download_api demo_figma ''https://img.example.com/down'' 3) = BadStatus 503"
    by (simp add: demo_figma_def reply_error_def)
  have e: "[0..<3] = [0, 1, 2]" by (simp add: upt_rec)
  show ?thesis
    using download_retries_then_fails [OF a b c, of demo_compressor "''down.png''" "17 / 20"
        "\<lparr>files = [], dirs = [], trace = []\<rparr>"] d e
    by (simp add: retry_events_def)
qed

section \<open>Properties of the file names\<close>

declare str_nat.simps [simp del]

















section \<open>Properties of the whole run\<close>

subsection \<open>Names of files and the files of the staging folder\<close>















subsection \<open>One download that succeeds at once, one upload that succeeds\<close>





subsection \<open>The run on the concrete environment\<close>









end
